theory Spec2Isabelle
  imports Main "HOL-Library.Sublist"
begin

section \<open>Values of the chat export\<close>

text \<open>
  The embedding of \<open>analyzeChat\<close> (the parser, \<open>chatParser.js\<close>) and of the two
  statistics queries of \<open>server.js\<close>. Line numbers are those of these two files.

  A JavaScript string is a sequence of UTF-16 code units; \<open>length\<close>, \<open>padStart\<close>,
  \<open>startsWith\<close> and the regular expressions of the code (none has the \<open>u\<close> flag) all
  work on code units. ASCII literals of the source are written \<open>ascii ''...''\<close>.
\<close>

type_synonym jsstring = "nat list"

definition ascii :: "string \<Rightarrow> jsstring" where
  "ascii s = map of_char s"

text \<open>
  The export is what \<open>JSON.parse\<close> returns. Numbers are the integer-valued ones (ids,
  epoch seconds); an object is the list of its members as written, where the last
  member of a repeated key is the one \<open>JSON.parse\<close> keeps. \<open>JUndefined\<close> is what reading
  an absent property yields.
\<close>

datatype jsval =
    JUndefined
  | JNull
  | JBool bool
  | JNum int
  | JStr jsstring
  | JArr "jsval list"
  | JObj "(jsstring \<times> jsval) list"

datatype error = TypeError

text \<open>
  Property read \<open>v.k\<close> for the property names the code reads (\<open>messages\<close>, \<open>name\<close>,
  \<open>id\<close>, \<open>type\<close>, \<open>date\<close>, \<open>photo\<close>, \<open>media_type\<close>, \<open>photo_id\<close>, \<open>text\<close>): none of
  them exists on a prototype, so a primitive or an array yields \<open>undefined\<close>.
  Reading a property of \<open>null\<close> or \<open>undefined\<close> throws; the callers check for that.
\<close>

fun get :: "jsval \<Rightarrow> jsstring \<Rightarrow> jsval" where
  "get (JObj kvs) k = (case map_of (rev kvs) k of Some v \<Rightarrow> v | None \<Rightarrow> JUndefined)"
| "get _ k = JUndefined"

fun truthy :: "jsval \<Rightarrow> bool" where
  "truthy JUndefined = False"
| "truthy JNull = False"
| "truthy (JBool b) = b"
| "truthy (JNum n) = (n \<noteq> 0)"
| "truthy (JStr s) = (s \<noteq> [])"
| "truthy (JArr _) = True"
| "truthy (JObj _) = True"

section \<open>The runtime the code calls\<close>

text \<open>
  \<open>analyzeChat\<close> calls four things that are not code of the repository:
  \<^item> \<open>new Date(v)\<close> with \<open>getFullYear()\<close> and \<open>getMonth()\<close>, which read the date in the
    local time zone of the process: when the constructor returns (see
    \<open>toPrimitiveThrows\<close> below), \<open>dateLocal v\<close> is \<open>Some (year, month)\<close>, the month
    counted from 0, and \<open>None\<close> for an invalid date, whose getters return \<open>NaN\<close>;
  \<^item> \<open>JSON.stringify\<close>;
  \<^item> the case folding of a regular expression with the \<open>i\<close> flag (the operation
    Canonicalize of ECMAScript, on single code units);
  \<^item> the pattern of the package \<open>emoji-regex\<close>: \<open>emojiMatches t\<close> is the list of the
    successive matches that the loop \<open>while ((match = regex.exec(t)))\<close> sees on a
    fresh regex. No alternative of that pattern matches the empty string, so every
    \<open>exec\<close> moves \<open>lastIndex\<close> forward and the loop ends with a finite list. Every
    match holds a code unit outside ASCII (a keycap ends in U+20E3), so it is never an
    array index nor a name of \<open>Object.prototype\<close>: \<open>emojiLibrary\<close> says so, and the
    emoji table of a bucket, a plain object, is modelled for such keys.
\<close>

record env =
  dateLocal :: "jsval \<Rightarrow> (int \<times> nat) option"
  stringify :: "jsval \<Rightarrow> jsstring"
  canonicalize :: "nat \<Rightarrow> nat"
  emojiMatches :: "jsstring \<Rightarrow> jsstring list"

definition emojiKey :: "jsstring \<Rightarrow> bool" where
  "emojiKey e = list_ex (\<lambda>u. 128 \<le> u) e"

definition emojiLibrary :: "env \<Rightarrow> bool" where
  "emojiLibrary E = (\<forall>t. list_all emojiKey (emojiMatches E t))"

section \<open>Numbers to strings\<close>

fun String_nat :: "nat \<Rightarrow> jsstring" where
  "String_nat n = (if n < 10 then [48 + n] else String_nat (n div 10) @ [48 + n mod 10])"

declare String_nat.simps [simp del]

definition String_int :: "int \<Rightarrow> jsstring" where
  "String_int i = (if i < 0 then 45 # String_nat (nat (- i)) else String_nat (nat i))"

text \<open>\<open>String(x)\<close> of a number that may be \<open>NaN\<close> (\<open>None\<close>).\<close>

definition String_num :: "int option \<Rightarrow> jsstring" where
  "String_num x = (case x of None \<Rightarrow> ascii ''NaN'' | Some i \<Rightarrow> String_int i)"

definition padStart :: "nat \<Rightarrow> jsstring \<Rightarrow> jsstring \<Rightarrow> jsstring" where
  "padStart n fill s =
     (if n \<le> length s \<or> fill = [] then s
      else take (n - length s) (concat (replicate (n - length s) fill)) @ s)"

definition getFullYear :: "(int \<times> nat) option \<Rightarrow> int option" where
  "getFullYear d = map_option fst d"

definition getMonth :: "(int \<times> nat) option \<Rightarrow> int option" where
  "getMonth d = map_option (\<lambda>p. int (snd p)) d"

text \<open>
  Line 56, \<open>new Date(message.date)\<close>. The constructor first converts its argument
  to a primitive: a string, a number, a boolean, \<open>null\<close> and \<open>undefined\<close> are
  primitives already. An object of the export has \<open>Object.prototype\<close> as prototype
  and no callable property of its own: \<open>valueOf\<close> returns the object itself, or is
  hidden by an own property, and the conversion goes on to \<open>toString\<close>. An own
  property \<open>toString\<close> hides \<open>Object.prototype.toString\<close> and is not callable, and
  then the conversion throws a \<open>TypeError\<close>; without one,
  \<open>Object.prototype.toString\<close> returns a string. An array is converted by
  \<open>Array.prototype.join\<close>, which converts every element other than \<open>null\<close> and
  \<open>undefined\<close> to a string in the same way. What the constructor makes of the
  primitive is the runtime's (\<open>dateLocal\<close>), and raises nothing.
\<close>

fun toPrimitiveThrows :: "jsval \<Rightarrow> bool" where
  "toPrimitiveThrows (JObj kvs) = (ascii ''toString'' \<in> fst ` set kvs)"
| "toPrimitiveThrows (JArr vs) = list_ex toPrimitiveThrows vs"
| "toPrimitiveThrows v = False"

text \<open>
  A \<open>Date\<close> object, as far as lines 57-59 read it: the local year and month, or
  \<open>None\<close> for an invalid \<open>Date\<close>.
\<close>

type_synonym date = "(int \<times> nat) option"

definition newDate :: "env \<Rightarrow> jsval \<Rightarrow> error + date" where
  "newDate E v = (if toPrimitiveThrows v then Inl TypeError else Inr (dateLocal E v))"

text \<open>Lines 57-59: the month key of the \<open>Date\<close> of a message.\<close>

definition monthKeyOf :: "date \<Rightarrow> jsstring" where
  "monthKeyOf messageDate =
     (String_num (getFullYear messageDate) @ ascii ''-'' @
      padStart 2 (ascii ''0'') (String_num (map_option (\<lambda>m. m + 1) (getMonth messageDate))))"

section \<open>Objects\<close>

text \<open>
  A plain object used as a dictionary: its own properties in the order they were
  created. \<open>obj[k] = v\<close> overwrites an existing property in place and appends a new one.
\<close>

type_synonym 'v object = "(jsstring \<times> 'v) list"

definition obj_get :: "'v object \<Rightarrow> jsstring \<Rightarrow> 'v option" where
  "obj_get obj k = map_of obj k"

definition modify :: "jsstring \<Rightarrow> ('v \<Rightarrow> 'v) \<Rightarrow> 'v object \<Rightarrow> 'v object" where
  "modify k f obj = map (\<lambda>(k', v). if k' = k then (k', f v) else (k', v)) obj"

definition obj_set :: "jsstring \<Rightarrow> 'v \<Rightarrow> 'v object \<Rightarrow> 'v object" where
  "obj_set k v obj =
     (if obj_get obj k = None then obj @ [(k, v)] else modify k (\<lambda>_. v) obj)"

text \<open>
  \<open>Object.keys\<close>, \<open>Object.entries\<close> and \<open>Object.values\<close> list the array indices first
  (the canonical decimal strings below \<open>2^32 - 1\<close>), in ascending numeric order, and
  then the other keys in creation order.
\<close>

definition isDigit :: "nat \<Rightarrow> bool" where
  "isDigit u = (48 \<le> u \<and> u \<le> 57)"

definition digitsValue :: "jsstring \<Rightarrow> nat" where
  "digitsValue s = foldl (\<lambda>a u. 10 * a + (u - 48)) 0 s"

definition arrayIndex :: "jsstring \<Rightarrow> nat option" where
  "arrayIndex s =
     (if s \<noteq> [] \<and> list_all isDigit s \<and> (s = [48] \<or> hd s \<noteq> 48) \<and> digitsValue s < 4294967295
      then Some (digitsValue s) else None)"

definition Object_entries :: "'v object \<Rightarrow> (jsstring \<times> 'v) list" where
  "Object_entries obj =
     sort_key (\<lambda>(k, v). case arrayIndex k of Some i \<Rightarrow> i | None \<Rightarrow> 0)
       (filter (\<lambda>(k, v). arrayIndex k \<noteq> None) obj)
     @ filter (\<lambda>(k, v). arrayIndex k = None) obj"

definition Object_keys :: "'v object \<Rightarrow> jsstring list" where
  "Object_keys obj = map fst (Object_entries obj)"

definition Object_values :: "'v object \<Rightarrow> 'v list" where
  "Object_values obj = map snd (Object_entries obj)"

section \<open>Arrays\<close>

text \<open>
  \<open>Array.prototype.sort\<close> with a comparator. The sort is stable (ECMAScript 2019), so
  for a comparator that orders its input consistently the result is the one sorted
  permutation that keeps equal elements in their order, which insertion computes.
\<close>

fun insert_cmp :: "('a \<Rightarrow> 'a \<Rightarrow> int) \<Rightarrow> 'a \<Rightarrow> 'a list \<Rightarrow> 'a list" where
  "insert_cmp cmp x [] = [x]"
| "insert_cmp cmp x (y # ys) = (if cmp x y \<le> 0 then x # y # ys else y # insert_cmp cmp x ys)"

definition Array_sort :: "('a \<Rightarrow> 'a \<Rightarrow> int) \<Rightarrow> 'a list \<Rightarrow> 'a list" where
  "Array_sort cmp xs = foldr (insert_cmp cmp) xs []"

text \<open>\<open>forEach\<close> with a callback that may throw: the first exception ends the loop.\<close>

fun forEach :: "('s \<Rightarrow> 'a \<Rightarrow> error + 's) \<Rightarrow> 's \<Rightarrow> 'a list \<Rightarrow> error + 's" where
  "forEach f s [] = Inr s"
| "forEach f s (x # xs) = (case f s x of Inl e \<Rightarrow> Inl e | Inr s' \<Rightarrow> forEach f s' xs)"

section \<open>Scanning a message text\<close>

text \<open>
  Line 48. The keywords, as UTF-16 code units:
  U+0414 U+043E U+0431 U+0440 U+0430 U+043D U+0456 U+0447,
  U+0421 U+043E U+043B U+043E U+0434 U+043A U+0438 U+0445,
  U+0414 U+043E U+0431 U+0440 U+043E U+0433 U+043E space U+0440 U+0430 U+043D U+043A U+0443,
  U+0421 U+043A U+0443 U+0447 U+0438 U+0432.
  (\<open>keywords\<close> is a reserved word of Isabelle: the constant list is called
  \<open>fixedKeywords\<close> and the bucket's property \<open>keywords\<close> is the field \<open>keywordCounts\<close>.)
\<close>

definition fixedKeywords :: "jsstring list" where
  "fixedKeywords =
     [[1044, 1086, 1073, 1088, 1072, 1085, 1110, 1095],
      [1057, 1086, 1083, 1086, 1076, 1082, 1080, 1093],
      [1044, 1086, 1073, 1088, 1086, 1075, 1086, 32, 1088, 1072, 1085, 1082, 1091],
      [1057, 1082, 1091, 1095, 1080, 1074]]"

text \<open>
  \<open>String.prototype.toLowerCase\<close>. The code applies it to the four keywords only, so
  the Unicode table is written out for the blocks their code units come from: Basic
  Latin and Cyrillic U+0400 to U+042F.
\<close>

definition toLowerCase_unit :: "nat \<Rightarrow> nat" where
  "toLowerCase_unit u =
     (if (65 \<le> u \<and> u \<le> 90) \<or> (1040 \<le> u \<and> u \<le> 1071) then u + 32
      else if 1024 \<le> u \<and> u \<le> 1039 then u + 80
      else u)"

definition toLowerCase :: "jsstring \<Rightarrow> jsstring" where
  "toLowerCase s = map toLowerCase_unit s"

text \<open>
  Lines 98-99: \<open>messageText.match(new RegExp(keyword, "gi"))\<close>. None of the keywords
  holds a character that is special in a pattern, so the pattern is the keyword itself,
  compared code unit by code unit after case folding. With the \<open>g\<close> flag \<open>match\<close>
  returns every match of a scan from left to right, each scan resuming where the last
  match ended; \<open>countMatches\<close> is the length of that array, 0 when \<open>match\<close> returns
  \<open>null\<close>. (An empty pattern matches the empty string at every position.)
\<close>

definition matchesAt :: "(nat \<Rightarrow> nat) \<Rightarrow> jsstring \<Rightarrow> jsstring \<Rightarrow> bool" where
  "matchesAt canon pat txt =
     (length pat \<le> length txt \<and> map canon (take (length pat) txt) = map canon pat)"

function countMatches :: "(nat \<Rightarrow> nat) \<Rightarrow> jsstring \<Rightarrow> jsstring \<Rightarrow> nat" where
  "countMatches canon pat txt =
     (if pat = [] then Suc (length txt)
      else if txt = [] then 0
      else if matchesAt canon pat txt then Suc (countMatches canon pat (drop (length pat) txt))
      else countMatches canon pat (tl txt))"
  by pat_completeness auto
termination
  by (relation "measure (\<lambda>(canon, pat, txt). length txt)") auto

declare countMatches.simps [simp del]

section \<open>Month buckets\<close>

record emojiCount =
  emoji :: jsstring
  count :: nat

text \<open>The pairs \<open>{name, value}\<close> of the formatted lists.\<close>

record nameValue =
  name :: jsstring
  nvalue :: nat

text \<open>
  The bucket object of lines 63-73, built in three layers because the server and the
  store read parts of it: \<open>{month, messageCount}\<close> is what the year query returns, the
  six fields of \<open>monthlyStat\<close> are those of \<open>MonthlyStatSchema\<close>, and \<open>bucket\<close> adds the
  two that only \<open>analyzeChat\<close> uses. \<open>keywordsFormatted\<close> and \<open>emojisFormatted\<close> are
  absent until the second pass assigns them (lines 133-146), which the empty list
  stands for. Counts are JavaScript numbers that only ever hold naturals.
\<close>

record monthCount =
  month :: jsstring
  messageCount :: nat

record monthlyStat = monthCount +
  photoCount :: nat
  keywordCounts :: "nat object"
  keywordsFormatted :: "nameValue list"
  emojisFormatted :: "nameValue list"

record bucket = monthlyStat +
  emojis :: "nat object"
  topEmojis :: "emojiCount list"

definition newBucket :: "jsstring \<Rightarrow> bucket" where
  "newBucket monthKey =
     \<lparr>month = monthKey, messageCount = 0, photoCount = 0,
      keywordCounts = foldl (\<lambda>obj keyword. obj_set (toLowerCase keyword) 0 obj) [] fixedKeywords,
      keywordsFormatted = [], emojisFormatted = [], emojis = [], topEmojis = []\<rparr>"

text \<open>Lines 80-84.\<close>

definition isPhoto :: "jsval \<Rightarrow> bool" where
  "isPhoto message =
     (truthy (get message (ascii ''photo'')) \<or>
      (truthy (get message (ascii ''media_type'')) \<and>
       get message (ascii ''media_type'') = JStr (ascii ''photo'')) \<or>
      truthy (get message (ascii ''photo_id'')))"

text \<open>
  Lines 97-104. \<open>obj[k] += n\<close> on a property that exists: every bucket is created with
  all four lowercased keywords, and no property is ever removed.
\<close>

definition countKeywords :: "(nat \<Rightarrow> nat) \<Rightarrow> jsstring \<Rightarrow> bucket \<Rightarrow> bucket" where
  "countKeywords canon messageText b =
     foldl (\<lambda>b keyword.
              let matches = countMatches canon keyword messageText in
              if matches \<noteq> 0
              then b\<lparr>keywordCounts := modify (toLowerCase keyword) (\<lambda>c. c + matches) (keywordCounts b)\<rparr>
              else b)
       b fixedKeywords"

text \<open>Lines 107-113.\<close>

definition countEmoji :: "nat object \<Rightarrow> jsstring \<Rightarrow> nat object" where
  "countEmoji obj e = obj_set e ((case obj_get obj e of Some c \<Rightarrow> c | None \<Rightarrow> 0) + 1) obj"

definition countEmojis :: "jsstring list \<Rightarrow> bucket \<Rightarrow> bucket" where
  "countEmojis matches b = b\<lparr>emojis := foldl countEmoji (emojis b) matches\<rparr>"

text \<open>Lines 89-114.\<close>

definition processText :: "env \<Rightarrow> jsval \<Rightarrow> bucket \<Rightarrow> bucket" where
  "processText E message b =
     (let t = get message (ascii ''text'') in
      if truthy t
      then (let messageText = (case t of JStr s \<Rightarrow> s | _ \<Rightarrow> stringify E t) in
            countEmojis (emojiMatches E messageText)
              (countKeywords (canonicalize E) messageText b))
      else b)"

text \<open>
  Lines 51-115, the callback of the first pass; \<open>monthlyStats\<close> is the state. A
  \<open>null\<close> element makes \<open>message.type\<close> throw, and line 56 throws when the
  constructor of \<open>Date\<close> does; nothing catches either inside \<open>analyzeChat\<close>.
\<close>

definition processMessage :: "env \<Rightarrow> bucket object \<Rightarrow> jsval \<Rightarrow> error + bucket object" where
  "processMessage E monthlyStats message =
     (if message = JNull \<or> message = JUndefined then Inl TypeError
      else if get message (ascii ''type'') \<noteq> JStr (ascii ''message'') then Inr monthlyStats
      else
        case newDate E (get message (ascii ''date'')) of
          Inl e \<Rightarrow> Inl e
        | Inr messageDate \<Rightarrow>
            let monthKey = monthKeyOf messageDate;
                stats1 = (if obj_get monthlyStats monthKey = None
                          then obj_set monthKey (newBucket monthKey) monthlyStats
                          else monthlyStats);
                stats2 = modify monthKey (\<lambda>b. b\<lparr>messageCount := messageCount b + 1\<rparr>) stats1;
                stats3 = (if isPhoto message
                          then modify monthKey (\<lambda>b. b\<lparr>photoCount := photoCount b + 1\<rparr>) stats2
                          else stats2)
            in Inr (modify monthKey (processText E message) stats3))"

text \<open>Lines 118-147, for one bucket.\<close>

definition byCountDesc :: "emojiCount \<Rightarrow> emojiCount \<Rightarrow> int" where
  "byCountDesc a b = int (count b) - int (count a)"

definition rankEmojis :: "nat object \<Rightarrow> emojiCount list" where
  "rankEmojis emojiCounts =
     (let emojiArray =
            Array_sort byCountDesc
              (map (\<lambda>(e, c). \<lparr>emoji = e, count = c\<rparr>) (Object_entries emojiCounts))
      in take 4 emojiArray)"

definition finalize :: "bucket \<Rightarrow> bucket" where
  "finalize b =
     (let top = rankEmojis (emojis b) in
      b\<lparr>topEmojis := top,
        keywordsFormatted :=
          map (\<lambda>(keyword, c). \<lparr>name = keyword, nvalue = c\<rparr>) (Object_entries (keywordCounts b)),
        emojisFormatted := map (\<lambda>item. \<lparr>name = emoji item, nvalue = count item\<rparr>) top\<rparr>)"

text \<open>
  The object that \<open>analyzeChat\<close> returns, where \<open>monthlyStats\<close> is the object of the
  buckets; \<open>ChatAnalysisSchema\<close> has the same fields, \<open>monthlyStats\<close> an array there,
  and \<open>lastUpdated\<close> (milliseconds of the wall clock).
\<close>

record 'm chatAnalysis =
  chatName :: jsval
  chatId :: jsval
  totalMessages :: nat
  monthlyStats :: 'm

record 'm document = "'m chatAnalysis" +
  lastUpdated :: int

type_synonym analysis = "bucket object chatAnalysis"

text \<open>Lines 43-155.\<close>

definition analyzeChat :: "env \<Rightarrow> jsval \<Rightarrow> error + analysis" where
  "analyzeChat E chatData =
     (if chatData = JNull \<or> chatData = JUndefined then Inl TypeError
      else case get chatData (ascii ''messages'') of
        JArr messages \<Rightarrow>
          (case forEach (processMessage E) [] messages of
             Inl e \<Rightarrow> Inl e
           | Inr stats \<Rightarrow>
               Inr \<lparr>chatName = get chatData (ascii ''name''),
                    chatId = get chatData (ascii ''id''),
                    totalMessages = length messages,
                    monthlyStats =
                      foldl (\<lambda>s monthKey. modify monthKey finalize s) stats (Object_keys stats)\<rparr>)
      | _ \<Rightarrow> Inl TypeError)"

section \<open>What is stored\<close>

text \<open>Lines 200-209.\<close>

definition monthlyStatsArray :: "analysis \<Rightarrow> monthlyStat list" where
  "monthlyStatsArray a =
     map (\<lambda>m. \<lparr>month = month m, messageCount = messageCount m, photoCount = photoCount m,
               keywordCounts = keywordCounts m, keywordsFormatted = keywordsFormatted m,
               emojisFormatted = emojisFormatted m\<rparr>)
       (Object_values (monthlyStats a))"

text \<open>
  Lines 212-221: the document that the upsert leaves under \<open>chatId\<close>, \<open>now\<close> being
  the reading of the wall clock.
\<close>

definition upsertDocument :: "int \<Rightarrow> analysis \<Rightarrow> monthlyStat list document" where
  "upsertDocument now a =
     \<lparr>chatName = chatName a, chatId = chatId a, totalMessages = totalMessages a,
      monthlyStats = monthlyStatsArray a, lastUpdated = now\<rparr>"


section \<open>The queries of the server\<close>

text \<open>
  A response is a status with an error message, or status 200 with a body. What
  \<open>await ChatAnalysis.findOne({})\<close> gives is an argument: the promise is rejected, or
  it resolves to \<open>null\<close> or to a document.
\<close>

datatype 'a response = Failure nat jsstring | Ok200 'a

datatype 'a outcome = Rejected | Resolved 'a

text \<open>\<open>\d{n}\<close> at the start of a string: the rest of the string after \<open>n\<close> digits.\<close>

fun digitsPrefix :: "nat \<Rightarrow> jsstring \<Rightarrow> jsstring option" where
  "digitsPrefix 0 s = Some s"
| "digitsPrefix (Suc n) [] = None"
| "digitsPrefix (Suc n) (u # us) = (if isDigit u then digitsPrefix n us else None)"

text \<open>\<open>/^\d{4}$/.test(year)\<close> and \<open>/^\d{4}-\d{2}$/.test(monthKey)\<close>.\<close>

definition yearFormat :: "jsstring \<Rightarrow> bool" where
  "yearFormat year = (digitsPrefix 4 year = Some [])"

definition monthFormat :: "jsstring \<Rightarrow> bool" where
  "monthFormat monthKey =
     (case digitsPrefix 4 monthKey of
        Some (u # rest) \<Rightarrow> u = 45 \<and> digitsPrefix 2 rest = Some []
      | _ \<Rightarrow> False)"

definition startsWith :: "jsstring \<Rightarrow> jsstring \<Rightarrow> bool" where
  "startsWith s p = (take (length p) s = p)"

text \<open>
  Lines 64-95. \<open>localeCompare\<close> is the collation of the engine, an argument.
\<close>

definition statisticsYear ::
  "(jsstring \<Rightarrow> jsstring \<Rightarrow> int) \<Rightarrow> monthlyStat list document option outcome \<Rightarrow> jsstring
   \<Rightarrow> monthCount list response" where
  "statisticsYear localeCompare found year =
     (if \<not> yearFormat year then Failure 400 (ascii ''Invalid year format'')
      else case found of
        Rejected \<Rightarrow> Failure 500 (ascii ''Server error'')
      | Resolved None \<Rightarrow> Failure 404 (ascii ''No chat analysis data found'')
      | Resolved (Some analysis) \<Rightarrow>
          (let yearPrefix = year @ ascii ''-'';
               monthlyData =
                 Array_sort (\<lambda>a b. localeCompare (month a) (month b))
                   (map (\<lambda>stat. \<lparr>month = month stat, messageCount = messageCount stat\<rparr>)
                      (filter (\<lambda>stat. startsWith (month stat) yearPrefix)
                         (monthlyStats analysis)))
           in Ok200 monthlyData))"

text \<open>
  Lines 101-150. The body is \<open>{month, totalMessages, keywords, emojis, memeCount}\<close>, in
  this order.
\<close>

datatype monthBody = MonthBody jsstring nat "nat object" "nat object" nat

definition statisticsMonth ::
  "monthlyStat list document option outcome \<Rightarrow> jsstring \<Rightarrow> monthBody response" where
  "statisticsMonth found monthKey =
     (if \<not> monthFormat monthKey then Failure 400 (ascii ''Invalid month format. Use YYYY-MM'')
      else case found of
        Rejected \<Rightarrow> Failure 500 (ascii ''Server error'')
      | Resolved None \<Rightarrow> Failure 404 (ascii ''No chat analysis data found'')
      | Resolved (Some analysis) \<Rightarrow>
          (case find (\<lambda>stat. month stat = monthKey) (monthlyStats analysis) of
             None \<Rightarrow> Failure 404 (ascii ''No data found for the specified month'')
           | Some monthData \<Rightarrow>
               Ok200 (MonthBody (month monthData) (messageCount monthData)
                        (foldl (\<lambda>obj item. obj_set (name item) (nvalue item) obj) []
                           (keywordsFormatted monthData))
                        (foldl (\<lambda>obj item. obj_set (name item) (nvalue item) obj) []
                           (emojisFormatted monthData))
                        (photoCount monthData))))"

section \<open>An environment for the examples\<close>

text \<open>
  The theorems below hold for every environment. The examples need one; this one
  agrees with the engines on the inputs of the examples:
  \<^item> dates in the format of a Telegram export, \<open>YYYY-MM-DDTHH:mm:ss\<close>, which
    ECMAScript reads as local time, so that the getters return the year and the month
    as written (days up to 28 only, which every month has); every other value is taken
    to be an invalid date, as the values of the examples are;
  \<^item> the upper-case table of Basic Latin and of Cyrillic U+0430 to U+045F;
  \<^item> the emoji of U+1F000 to U+1FFFF (one surrogate pair each), without modifiers;
  \<^item> \<open>JSON.stringify\<close> on strings free of control characters.
\<close>

definition isoLocal :: "jsval \<Rightarrow> (int \<times> nat) option" where
  "isoLocal v =
     (case v of
        JStr s \<Rightarrow>
          (let year = take 4 s; mon = take 2 (drop 5 s); day = take 2 (drop 8 s);
               hour = take 2 (drop 11 s); minute = take 2 (drop 14 s); sec = take 2 (drop 17 s)
           in if length s = 19 \<and> list_all isDigit (year @ mon @ day @ hour @ minute @ sec)
                 \<and> [s ! 4, s ! 7, s ! 10, s ! 13, s ! 16] = [45, 45, 84, 58, 58]
                 \<and> 1 \<le> digitsValue mon \<and> digitsValue mon \<le> 12
                 \<and> 1 \<le> digitsValue day \<and> digitsValue day \<le> 28
                 \<and> digitsValue hour < 24 \<and> digitsValue minute < 60 \<and> digitsValue sec < 60
              then Some (int (digitsValue year), digitsValue mon - 1)
              else None)
      | _ \<Rightarrow> None)"

definition upperUnit :: "nat \<Rightarrow> nat" where
  "upperUnit u =
     (if (97 \<le> u \<and> u \<le> 122) \<or> (1072 \<le> u \<and> u \<le> 1103) then u - 32
      else if 1104 \<le> u \<and> u \<le> 1119 then u - 80
      else u)"

fun pairEmojis :: "jsstring \<Rightarrow> jsstring list" where
  "pairEmojis (h # l # us) =
     (if 55356 \<le> h \<and> h \<le> 55359 \<and> 56320 \<le> l \<and> l \<le> 57343
      then [h, l] # pairEmojis us
      else pairEmojis (l # us))"
| "pairEmojis _ = []"

definition quote :: "jsstring \<Rightarrow> jsstring" where
  "quote s = 34 # concat (map (\<lambda>u. if u = 34 \<or> u = 92 then [92, u] else [u]) s) @ [34]"

fun commas :: "jsstring list \<Rightarrow> jsstring" where
  "commas [] = []"
| "commas [x] = x"
| "commas (x # xs) = x @ 44 # commas xs"

fun stringifyJ :: "jsval \<Rightarrow> jsstring" where
  "stringifyJ JUndefined = ascii ''null''"
| "stringifyJ JNull = ascii ''null''"
| "stringifyJ (JBool b) = (if b then ascii ''true'' else ascii ''false'')"
| "stringifyJ (JNum n) = String_int n"
| "stringifyJ (JStr s) = quote s"
| "stringifyJ (JArr vs) = 91 # commas (map stringifyJ vs) @ [93]"
| "stringifyJ (JObj kvs) =
     123 # commas (map (\<lambda>kv. quote (fst kv) @ 58 # stringifyJ (snd kv)) kvs) @ [125]"

definition exampleEnv :: env where
  "exampleEnv =
     \<lparr>dateLocal = isoLocal, stringify = stringifyJ, canonicalize = upperUnit,
      emojiMatches = pairEmojis\<rparr>"

text \<open>
  Two runtimes that differ from the one above in the time zone only and also read an
  instant given with \<open>Z\<close>, \<open>YYYY-MM-DDTHH:mm:ssZ\<close> (Coordinated Universal Time, any day of
  the calendar): \<open>zonedLocal offset\<close> is the local year and month in a zone that is
  \<open>offset\<close> whole hours, fewer than 24, ahead of it. A date without \<open>Z\<close> is local time
  in every zone.
\<close>

definition leapYear :: "nat \<Rightarrow> bool" where
  "leapYear y = (y mod 4 = 0 \<and> (y mod 100 \<noteq> 0 \<or> y mod 400 = 0))"

definition daysInMonth :: "nat \<Rightarrow> nat \<Rightarrow> nat" where
  "daysInMonth y m =
     (if m = 2 then (if leapYear y then 29 else 28)
      else if m = 4 \<or> m = 6 \<or> m = 9 \<or> m = 11 then 30 else 31)"

definition zonedLocal :: "nat \<Rightarrow> jsval \<Rightarrow> date" where
  "zonedLocal offset v =
     (case v of
        JStr s \<Rightarrow>
          (if length s = 20 \<and> s ! 19 = 90
           then (let year = take 4 s; mon = take 2 (drop 5 s); day = take 2 (drop 8 s);
                     hour = take 2 (drop 11 s); minute = take 2 (drop 14 s); sec = take 2 (drop 17 s)
                 in if list_all isDigit (year @ mon @ day @ hour @ minute @ sec)
                       \<and> [s ! 4, s ! 7, s ! 10, s ! 13, s ! 16] = [45, 45, 84, 58, 58]
                       \<and> 1 \<le> digitsValue mon \<and> digitsValue mon \<le> 12
                       \<and> 1 \<le> digitsValue day
                       \<and> digitsValue day \<le> daysInMonth (digitsValue year) (digitsValue mon)
                       \<and> digitsValue hour < 24 \<and> digitsValue minute < 60 \<and> digitsValue sec < 60
                    then (if digitsValue hour + offset < 24
                             \<or> digitsValue day < daysInMonth (digitsValue year) (digitsValue mon)
                          then Some (int (digitsValue year), digitsValue mon - 1)
                          else if digitsValue mon < 12
                          then Some (int (digitsValue year), digitsValue mon)
                          else Some (int (digitsValue year) + 1, 0))
                    else None)
           else isoLocal v)
      | _ \<Rightarrow> None)"

definition utcEnv :: env where
  "utcEnv = exampleEnv\<lparr>dateLocal := zonedLocal 0\<rparr>"

definition eastEnv :: env where
  "eastEnv = exampleEnv\<lparr>dateLocal := zonedLocal 2\<rparr>"

text \<open>A collation for the server examples: the order of the code units.\<close>

fun unitCompare :: "jsstring \<Rightarrow> jsstring \<Rightarrow> int" where
  "unitCompare [] [] = 0"
| "unitCompare [] (y # ys) = - 1"
| "unitCompare (x # xs) [] = 1"
| "unitCompare (x # xs) (y # ys) =
     (if x < y then - 1 else if y < x then 1 else unitCompare xs ys)"

section \<open>Notions used in the statements and proofs\<close>

text \<open>
  The test of line 53, and the messages of type \<open>"message"\<close> whose date gives an
  invalid \<open>Date\<close>.
\<close>

definition isMessage :: "jsval \<Rightarrow> bool" where
  "isMessage m = (get m (ascii ''type'') = JStr (ascii ''message''))"

definition unparseable :: "env \<Rightarrow> jsval \<Rightarrow> bool" where
  "unparseable E m = (isMessage m \<and> dateLocal E (get m (ascii ''date'')) = None)"

text \<open>The messages of type \<open>"message"\<close> on whose date line 56 throws.\<close>

definition dateThrows :: "jsval \<Rightarrow> bool" where
  "dateThrows m = (isMessage m \<and> toPrimitiveThrows (get m (ascii ''date'')))"

text \<open>
  What lines 76-114 do to the bucket of a message: \<open>accumulate\<close>; the callback on a
  message on which it does not throw is \<open>stepMessage\<close> (lemma \<open>processMessage_step\<close>), and
  \<open>countKeywords\<close> replaces the keyword table by \<open>keywordHits\<close> of it (lemma
  \<open>countKeywords_hits\<close>). \<open>textOf\<close> is the \<open>messageText\<close> of lines 91-94.
\<close>

definition textOf :: "env \<Rightarrow> jsval \<Rightarrow> jsstring" where
  "textOf E m = (case get m (ascii ''text'') of JStr s \<Rightarrow> s | t \<Rightarrow> stringify E t)"

definition keywordHits ::
  "(nat \<Rightarrow> nat) \<Rightarrow> jsstring \<Rightarrow> jsstring list \<Rightarrow> nat object \<Rightarrow> nat object" where
  "keywordHits canon t ks obj =
     foldl (\<lambda>obj keyword.
              if countMatches canon keyword t \<noteq> 0
              then modify (toLowerCase keyword) (\<lambda>c. c + countMatches canon keyword t) obj
              else obj) obj ks"

definition accumulate :: "env \<Rightarrow> jsval \<Rightarrow> bucket \<Rightarrow> bucket" where
  "accumulate E m b =
     processText E m
       ((if isPhoto m then (\<lambda>b. b\<lparr>photoCount := photoCount b + 1\<rparr>) else id)
          (b\<lparr>messageCount := messageCount b + 1\<rparr>))"

definition stepMessage :: "env \<Rightarrow> bucket object \<Rightarrow> jsval \<Rightarrow> bucket object" where
  "stepMessage E s m =
     (if isMessage m
      then (let k = monthKeyOf (dateLocal E (get m (ascii ''date''))) in
            modify k (accumulate E m) (if map_of s k = None then s @ [(k, newBucket k)] else s))
      else s)"

text \<open>
  The distinct elements of a list in the order of their first occurrence, and the
  object \<open>{emoji, count}\<close> of line 123.
\<close>

fun firstSeen :: "'a list \<Rightarrow> 'a list" where
  "firstSeen [] = []"
| "firstSeen (x # xs) = x # filter (\<lambda>y. y \<noteq> x) (firstSeen xs)"

definition emojiEntry :: "jsstring \<times> nat \<Rightarrow> emojiCount" where
  "emojiEntry p = \<lparr>emoji = fst p, count = snd p\<rparr>"

text \<open>
  The sum of \<open>messageCount\<close> over the buckets of an analysis, and the result of
  \<open>analyzeAndStore\<close> without the reading of the clock.
\<close>

definition bucketTotal :: "analysis \<Rightarrow> nat" where
  "bucketTotal a = sum_list (map messageCount (Object_values (monthlyStats a)))"





section \<open>Examples\<close>

text \<open>
  The message of the scenario: type \<open>"message"\<close>, date \<open>2024-01-05T10:00:00\<close> and a
  text that holds the first keyword, a space, U+1F600, a space and the first keyword
  again.
\<close>

definition scenarioText :: jsstring where
  "scenarioText =
     [1044, 1086, 1073, 1088, 1072, 1085, 1110, 1095, 32, 55357, 56832, 32,
      1044, 1086, 1073, 1088, 1072, 1085, 1110, 1095]"

definition scenarioMessage :: jsval where
  "scenarioMessage =
     JObj [(ascii ''type'', JStr (ascii ''message'')),
           (ascii ''date'', JStr (ascii ''2024-01-05T10:00:00'')),
           (ascii ''text'', JStr scenarioText)]"

definition scenarioExport :: jsval where
  "scenarioExport = JObj [(ascii ''messages'', JArr [scenarioMessage])]"

text \<open>
  A message with a photo and a date that no engine parses, a service entry, and
  exports made of them.
\<close>

definition undatedPhoto :: jsval where
  "undatedPhoto =
     JObj [(ascii ''type'', JStr (ascii ''message'')),
           (ascii ''date'', JStr (ascii ''not a date'')),
           (ascii ''photo'', JBool True)]"

definition serviceEntry :: jsval where
  "serviceEntry =
     JObj [(ascii ''type'', JStr (ascii ''service'')),
           (ascii ''date'', JStr (ascii ''2024-01-06T09:00:00''))]"

definition undatedExport :: jsval where
  "undatedExport = JObj [(ascii ''messages'', JArr [undatedPhoto])]"

definition mixedExport :: jsval where
  "mixedExport =
     JObj [(ascii ''name'', JStr (ascii ''chat'')), (ascii ''id'', JNum 7),
           (ascii ''messages'', JArr [scenarioMessage, undatedPhoto, serviceEntry])]"

definition datedExport :: jsval where
  "datedExport = JObj [(ascii ''messages'', JArr [scenarioMessage, serviceEntry])]"

definition emptyExport :: jsval where
  "emptyExport = JObj [(ascii ''messages'', JArr [])]"

text \<open>
  A message whose date is the JSON object \<open>{"toString": 1}\<close>, on which the constructor
  of \<open>Date\<close> throws, and an export with it after the message of the scenario; the
  export of the scenario is the same export without it.
\<close>

definition throwingMessage :: jsval where
  "throwingMessage =
     JObj [(ascii ''type'', JStr (ascii ''message'')),
           (ascii ''date'', JObj [(ascii ''toString'', JNum 1)])]"

definition throwingExport :: jsval where
  "throwingExport = JObj [(ascii ''messages'', JArr [scenarioMessage, throwingMessage])]"

text \<open>
  A message sent half an hour before the end of January 2024, Universal Time, and
  the export that holds it.
\<close>

definition zuluMessage :: jsval where
  "zuluMessage =
     JObj [(ascii ''type'', JStr (ascii ''message'')),
           (ascii ''date'', JStr (ascii ''2024-01-31T23:30:00Z''))]"

definition zuluExport :: jsval where
  "zuluExport = JObj [(ascii ''messages'', JArr [zuluMessage])]"

text \<open>
  What \<open>analyzeChat\<close> returns on them in the example environment (lemmas \<open>mixed_run\<close>
  and \<open>undated_run\<close>), and the document stored for the mixed export.
\<close>

definition scenarioBucket :: bucket where
  "scenarioBucket =
     \<lparr>month = ascii ''2024-01'', messageCount = 1, photoCount = 0,
      keywordCounts =
        [([1076, 1086, 1073, 1088, 1072, 1085, 1110, 1095], 2),
         ([1089, 1086, 1083, 1086, 1076, 1082, 1080, 1093], 0),
         ([1076, 1086, 1073, 1088, 1086, 1075, 1086, 32, 1088, 1072, 1085, 1082, 1091], 0),
         ([1089, 1082, 1091, 1095, 1080, 1074], 0)],
      keywordsFormatted =
        [\<lparr>name = [1076, 1086, 1073, 1088, 1072, 1085, 1110, 1095], nvalue = 2\<rparr>,
         \<lparr>name = [1089, 1086, 1083, 1086, 1076, 1082, 1080, 1093], nvalue = 0\<rparr>,
         \<lparr>name = [1076, 1086, 1073, 1088, 1086, 1075, 1086, 32, 1088, 1072, 1085, 1082, 1091],
           nvalue = 0\<rparr>,
         \<lparr>name = [1089, 1082, 1091, 1095, 1080, 1074], nvalue = 0\<rparr>],
      emojisFormatted = [\<lparr>name = [55357, 56832], nvalue = 1\<rparr>],
      emojis = [([55357, 56832], 1)],
      topEmojis = [\<lparr>emoji = [55357, 56832], count = 1\<rparr>]\<rparr>"

definition undatedBucket :: bucket where
  "undatedBucket =
     \<lparr>month = ascii ''NaN-NaN'', messageCount = 1, photoCount = 1,
      keywordCounts =
        [([1076, 1086, 1073, 1088, 1072, 1085, 1110, 1095], 0),
         ([1089, 1086, 1083, 1086, 1076, 1082, 1080, 1093], 0),
         ([1076, 1086, 1073, 1088, 1086, 1075, 1086, 32, 1088, 1072, 1085, 1082, 1091], 0),
         ([1089, 1082, 1091, 1095, 1080, 1074], 0)],
      keywordsFormatted =
        [\<lparr>name = [1076, 1086, 1073, 1088, 1072, 1085, 1110, 1095], nvalue = 0\<rparr>,
         \<lparr>name = [1089, 1086, 1083, 1086, 1076, 1082, 1080, 1093], nvalue = 0\<rparr>,
         \<lparr>name = [1076, 1086, 1073, 1088, 1086, 1075, 1086, 32, 1088, 1072, 1085, 1082, 1091],
           nvalue = 0\<rparr>,
         \<lparr>name = [1089, 1082, 1091, 1095, 1080, 1074], nvalue = 0\<rparr>],
      emojisFormatted = [], emojis = [], topEmojis = []\<rparr>"

definition mixedAnalysis :: analysis where
  "mixedAnalysis =
     \<lparr>chatName = JStr (ascii ''chat''), chatId = JNum 7, totalMessages = 3,
      monthlyStats = [(ascii ''2024-01'', scenarioBucket), (ascii ''NaN-NaN'', undatedBucket)]\<rparr>"

definition undatedAnalysis :: analysis where
  "undatedAnalysis =
     \<lparr>chatName = JUndefined, chatId = JUndefined, totalMessages = 1,
      monthlyStats = [(ascii ''NaN-NaN'', undatedBucket)]\<rparr>"

definition storedExample :: "monthlyStat list document" where
  "storedExample = upsertDocument 1700000000000 mixedAnalysis"

text \<open>
  The table of the ranking scenario: U+1F389 and U+1F525 with count 3, U+1F600 with
  count 2, U+1F973 and U+1F388 with count 1. The first keyword as the code writes it,
  in upper case and in lower case.
\<close>

definition partyTable :: "nat object" where
  "partyTable =
     [([55356, 57225], 3), ([55357, 56613], 3), ([55357, 56832], 2), ([55358, 56691], 1),
      ([55356, 57224], 1)]"

definition dobranich :: jsstring where
  "dobranich = [1044, 1086, 1073, 1088, 1072, 1085, 1110, 1095]"

definition dobranichUpper :: jsstring where
  "dobranichUpper = [1044, 1054, 1041, 1056, 1040, 1053, 1030, 1063]"

definition dobranichLower :: jsstring where
  "dobranichLower = [1076, 1086, 1073, 1088, 1072, 1085, 1110, 1095]"

section \<open>Properties of objects and arrays\<close>

lemma map_fst_modify: "map fst (modify k f obj) = map fst obj"
  by (induction obj) (auto simp: modify_def)

lemma map_of_modify:
  "map_of (modify k f obj) k' = (if k' = k then map_option f (map_of obj k) else map_of obj k')"
  by (induction obj) (auto simp: modify_def)

lemma modify_absent: "map_of obj k = None \<Longrightarrow> modify k f obj = obj"
  by (induction obj) (auto simp: modify_def split: if_splits)

lemma modify_modify: "modify k f (modify k g obj) = modify k (f \<circ> g) obj"
  by (induction obj) (auto simp: modify_def)

lemma map_of_None_iff: "(map_of obj k = None) = (k \<notin> set (map fst obj))"
  by (simp add: map_of_eq_None_iff)

section \<open>Properties of the first pass\<close>

lemma processMessage_step:
  "processMessage E s m =
     (if m = JNull \<or> m = JUndefined \<or> dateThrows m then Inl TypeError
      else Inr (stepMessage E s m))"
  by (simp add: processMessage_def stepMessage_def isMessage_def dateThrows_def newDate_def
      accumulate_def[abs_def] Let_def obj_set_def obj_get_def modify_modify comp_def)

lemma forEach_step:
  "JNull \<notin> set ms \<Longrightarrow> JUndefined \<notin> set ms \<Longrightarrow> \<forall>m \<in> set ms. \<not> dateThrows m \<Longrightarrow>
   forEach (processMessage E) s ms = Inr (foldl (stepMessage E) s ms)"
  by (induction ms arbitrary: s) (auto simp: processMessage_step)

lemma forEach_Inr:
  "forEach (processMessage E) s ms = Inr s' \<Longrightarrow>
   JNull \<notin> set ms \<and> JUndefined \<notin> set ms \<and> (\<forall>m \<in> set ms. \<not> dateThrows m) \<and>
   s' = foldl (stepMessage E) s ms"
  by (induction ms arbitrary: s) (auto simp: processMessage_step split: if_splits)

lemma map_of_step:
  "map_of (stepMessage E s m) k =
     (if isMessage m \<and> monthKeyOf (dateLocal E (get m (ascii ''date''))) = k
      then Some (accumulate E m (case map_of s k of None \<Rightarrow> newBucket k | Some b \<Rightarrow> b))
      else map_of s k)"
  by (auto simp: stepMessage_def Let_def map_of_modify map_add_def split: option.splits)

lemma keys_step:
  "map fst (stepMessage E s m) =
     (if isMessage m \<and> monthKeyOf (dateLocal E (get m (ascii ''date''))) \<notin> set (map fst s)
      then map fst s @ [monthKeyOf (dateLocal E (get m (ascii ''date'')))] else map fst s)"
  by (auto simp: stepMessage_def Let_def map_fst_modify map_of_None_iff)

lemma countKeywords_foldl:
  "foldl (\<lambda>b keyword.
              let matches = countMatches canon keyword t in
              if matches \<noteq> 0
              then b\<lparr>keywordCounts := modify (toLowerCase keyword) (\<lambda>c. c + matches) (keywordCounts b)\<rparr>
              else b) b ks = b\<lparr>keywordCounts := keywordHits canon t ks (keywordCounts b)\<rparr>"
  by (induction ks arbitrary: b) (simp_all add: keywordHits_def Let_def)

lemma countKeywords_hits:
  "countKeywords canon t b = b\<lparr>keywordCounts := keywordHits canon t fixedKeywords (keywordCounts b)\<rparr>"
  unfolding countKeywords_def by (rule countKeywords_foldl)

lemma keys_keywordHits: "map fst (keywordHits canon t ks obj) = map fst obj"
  by (induction ks arbitrary: obj) (simp_all add: keywordHits_def map_fst_modify)

lemma processText_eq:
  "processText E m b =
     (if truthy (get m (ascii ''text''))
      then b\<lparr>keywordCounts := keywordHits (canonicalize E) (textOf E m) fixedKeywords (keywordCounts b),
             emojis := foldl countEmoji (emojis b) (emojiMatches E (textOf E m))\<rparr>
      else b)"
  by (simp add: processText_def Let_def countEmojis_def countKeywords_hits textOf_def
      split: jsval.splits)

lemma accumulate_messageCount: "messageCount (accumulate E m b) = messageCount b + 1"
  by (simp add: accumulate_def processText_eq)

lemma accumulate_photoCount:
  "photoCount (accumulate E m b) = photoCount b + (if isPhoto m then 1 else 0)"
  by (simp add: accumulate_def processText_eq)

lemma accumulate_month: "month (accumulate E m b) = month b"
  by (simp add: accumulate_def processText_eq)

lemma accumulate_keys:
  "map fst (keywordCounts (accumulate E m b)) = map fst (keywordCounts b)"
  by (simp add: accumulate_def processText_eq keys_keywordHits)

lemma sum_modify:
  "distinct (map fst s) \<Longrightarrow> map_of s k = Some b \<Longrightarrow>
   sum_list (map (\<lambda>kv. g (snd kv)) (modify k f s)) + g b
     = sum_list (map (\<lambda>kv. g (snd kv)) s) + (g (f b) :: nat)"
proof (induction s)
  case Nil
  then show ?case by simp
next
  case (Cons kv s)
  show ?case
  proof (cases "fst kv = k")
    case True
    with Cons.prems have "map_of s k = None" "snd kv = b"
      by (auto simp: map_of_None_iff)
    moreover have "modify k f (kv # s) = (k, f b) # modify k f s"
      using True \<open>snd kv = b\<close> by (cases kv) (simp add: modify_def)
    ultimately show ?thesis
      by (simp add: modify_absent)
  next
    case False
    with Cons show ?thesis by (cases kv) (auto simp: modify_def)
  qed
qed

lemma sum_step:
  assumes "distinct (map fst s)"
  shows "sum_list (map (\<lambda>kv. messageCount (snd kv)) (stepMessage E s m))
         = sum_list (map (\<lambda>kv. messageCount (snd kv)) s) + (if isMessage m then 1 else 0)"
proof (cases "isMessage m")
  case False
  then show ?thesis by (simp add: stepMessage_def)
next
  case True
  define k where "k = monthKeyOf (dateLocal E (get m (ascii ''date'')))"
  define s1 where "s1 = (if map_of s k = None then s @ [(k, newBucket k)] else s)"
  have step: "stepMessage E s m = modify k (accumulate E m) s1"
    using True by (simp add: stepMessage_def k_def s1_def Let_def)
  have d1: "distinct (map fst s1)"
    using assms by (auto simp: s1_def map_of_None_iff)
  obtain b where b: "map_of s1 k = Some b"
    by (cases "map_of s k") (auto simp: s1_def map_add_def)
  have s1_sum: "sum_list (map (\<lambda>kv. messageCount (snd kv)) s1)
                = sum_list (map (\<lambda>kv. messageCount (snd kv)) s)"
    by (simp add: s1_def newBucket_def)
  from sum_modify [OF d1 b, of messageCount "accumulate E m"]
  show ?thesis using True by (simp add: step s1_sum accumulate_messageCount)
qed

lemma distinct_step: "distinct (map fst s) \<Longrightarrow> distinct (map fst (stepMessage E s m))"
  by (simp add: keys_step)

lemma distinct_foldl_step:
  "distinct (map fst s) \<Longrightarrow> distinct (map fst (foldl (stepMessage E) s ms))"
  by (induction ms arbitrary: s) (simp_all add: distinct_step)

lemma sum_foldl_step:
  "distinct (map fst s) \<Longrightarrow>
   sum_list (map (\<lambda>kv. messageCount (snd kv)) (foldl (stepMessage E) s ms))
     = sum_list (map (\<lambda>kv. messageCount (snd kv)) s) + length (filter isMessage ms)"
  by (induction ms arbitrary: s) (simp_all add: distinct_step sum_step)

section \<open>Keys that are not array indices\<close>

lemma arrayIndex_None: "u \<in> set k \<Longrightarrow> \<not> isDigit u \<Longrightarrow> arrayIndex k = None"
  by (auto simp: arrayIndex_def list_all_iff)

lemma ascii_minus: "ascii ''-'' = [45]"
  by (simp add: ascii_def)

lemma ascii_NaN: "ascii ''NaN'' = [78, 97, 78]"
  by (simp add: ascii_def)

lemma monthKeyOf_not_index: "arrayIndex (monthKeyOf d) = None"
  by (rule arrayIndex_None [of 45]) (simp_all add: monthKeyOf_def Let_def ascii_minus isDigit_def)

lemma Object_entries_id:
  assumes "\<forall>k \<in> set (map fst obj). arrayIndex k = None"
  shows "Object_entries obj = obj"
proof -
  have "filter (\<lambda>(k, v). arrayIndex k \<noteq> None) obj = []"
    using assms by (auto simp: filter_empty_conv)
  moreover have "filter (\<lambda>(k, v). arrayIndex k = None) obj = obj"
    using assms by (auto simp: filter_id_conv)
  ultimately show ?thesis by (simp add: Object_entries_def)
qed

lemma String_nat_digits: "String_nat n \<noteq> [] \<and> list_all isDigit (String_nat n)"
proof (induction n rule: String_nat.induct)
  case (1 n)
  show ?case
  proof (cases "n < 10")
    case True
    then show ?thesis by (subst (1 2) String_nat.simps) (simp add: isDigit_def)
  next
    case False
    have "n mod 10 < 10" by simp
    then have "isDigit (48 + n mod 10)" unfolding isDigit_def by linarith
    with False 1 show ?thesis by (subst (1 2) String_nat.simps) simp
  qed
qed

lemma String_int_hd: "String_int i \<noteq> [] \<and> hd (String_int i) \<noteq> 78"
proof (cases "i < 0")
  case True
  then show ?thesis by (simp add: String_int_def)
next
  case False
  from String_nat_digits [of "nat i"] have "isDigit (hd (String_nat (nat i)))"
    by (cases "String_nat (nat i)") simp_all
  with False String_nat_digits [of "nat i"] show ?thesis
    by (auto simp: String_int_def isDigit_def)
qed

lemma monthKeyOf_NaN:
  "(monthKeyOf d = ascii ''NaN-NaN'') = (d = None)"
proof (cases d)
  case None
  then show ?thesis
    by (simp add: monthKeyOf_def getFullYear_def getMonth_def String_num_def padStart_def ascii_def)
next
  case (Some p)
  have "hd (monthKeyOf d) = hd (String_int (fst p))"
    using Some String_int_hd [of "fst p"]
    by (simp add: monthKeyOf_def getFullYear_def String_num_def)
  then have "hd (monthKeyOf d) \<noteq> 78" using String_int_hd [of "fst p"] by simp
  moreover have "hd (ascii ''NaN-NaN'') = 78" by (simp add: ascii_def)
  ultimately show ?thesis using Some by auto
qed

lemma keys_foldl_step:
  "set (map fst (foldl (stepMessage E) s ms)) \<subseteq> set (map fst s) \<union> range monthKeyOf"
proof (induction ms arbitrary: s)
  case Nil
  then show ?case by simp
next
  case (Cons m ms)
  have "set (map fst (stepMessage E s m)) \<subseteq> set (map fst s) \<union> range monthKeyOf"
    by (auto simp: keys_step)
  with Cons [of "stepMessage E s m"] show ?case by auto
qed

lemma finalize_all:
  "distinct ks \<Longrightarrow>
   foldl (\<lambda>s k. modify k f s) s ks = map (\<lambda>(k, v). (k, if k \<in> set ks then f v else v)) s"
proof (induction ks arbitrary: s)
  case Nil
  then show ?case by simp
next
  case (Cons k ks)
  then show ?case by (auto simp: modify_def)
qed

lemma pass2:
  assumes "distinct (map fst s)" and "\<forall>k \<in> set (map fst s). arrayIndex k = None"
  shows "foldl (\<lambda>s k. modify k f s) s (Object_keys s) = map (\<lambda>(k, v). (k, f v)) s"
proof -
  have "Object_keys s = map fst s"
    using assms(2) by (simp add: Object_keys_def Object_entries_id)
  then have "foldl (\<lambda>s k. modify k f s) s (Object_keys s)
             = map (\<lambda>(k, v). (k, if k \<in> set (map fst s) then f v else v)) s"
    using assms(1) by (simp add: finalize_all)
  also have "\<dots> = map (\<lambda>(k, v). (k, f v)) s"
    by (rule map_cong) force+
  finally show ?thesis .
qed

section \<open>Properties of the keyword scan\<close>

lemma countMatches_empty: "countMatches c [] t = Suc (length t)"
  by (simp add: countMatches.simps [of c "[]" t])

lemma countMatches_Nil: "p \<noteq> [] \<Longrightarrow> countMatches c p [] = 0"
  by (simp add: countMatches.simps [of c p "[]"])

lemma countMatches_match:
  "p \<noteq> [] \<Longrightarrow> t \<noteq> [] \<Longrightarrow> matchesAt c p t \<Longrightarrow>
   countMatches c p t = Suc (countMatches c p (drop (length p) t))"
  by (simp add: countMatches.simps [of c p t])

lemma countMatches_skip:
  "p \<noteq> [] \<Longrightarrow> t \<noteq> [] \<Longrightarrow> \<not> matchesAt c p t \<Longrightarrow>
   countMatches c p t = countMatches c p (tl t)"
  by (simp add: countMatches.simps [of c p t])

lemma matchesAt_cong:
  assumes h: "\<forall>u \<in> set p \<union> set t. c1 u = c2 u"
  shows "matchesAt c1 p t = matchesAt c2 p t"
proof -
  have A: "map c1 p = map c2 p" using h by simp
  have B: "map c1 (take (length p) t) = map c2 (take (length p) t)"
    using h by (auto dest: in_set_takeD)
  show ?thesis by (simp only: matchesAt_def A B)
qed

lemma countMatches_cong:
  "\<forall>u \<in> set p \<union> set t. c1 u = c2 u \<Longrightarrow> countMatches c1 p t = countMatches c2 p t"
proof (induction c1 p t rule: countMatches.induct)
  case (1 c p t)
  have m: "matchesAt c p t = matchesAt c2 p t"
    using "1.prems" by (rule matchesAt_cong)
  show ?case
  proof (cases "p = []")
    case True
    then show ?thesis by (simp add: countMatches_empty)
  next
    case pne: False
    show ?thesis
    proof (cases "t = []")
      case True
      with pne show ?thesis by (simp add: countMatches_Nil)
    next
      case tne: False
      show ?thesis
      proof (cases "matchesAt c p t")
        case True
        have "\<forall>u \<in> set p \<union> set (drop (length p) t). c u = c2 u"
          using "1.prems" by (auto dest: in_set_dropD)
        from "1.IH"(1) [OF pne tne True this] True m pne tne show ?thesis
          by (simp add: countMatches_match)
      next
        case False
        have "\<forall>u \<in> set p \<union> set (tl t). c u = c2 u"
          using "1.prems" tne by (auto dest: list.set_sel(2))
        from "1.IH"(2) [OF pne tne False this] False m pne tne show ?thesis
          by (simp add: countMatches_skip)
      qed
    qed
  qed
qed

lemma matchesAt_caseless:
  assumes a: "map c t = map c t'" and b: "map c p = map c p'"
  shows "matchesAt c p t = matchesAt c p' t'"
proof -
  from a have lt: "length t = length t'" by (rule map_eq_imp_length_eq)
  from b have lp: "length p = length p'" by (rule map_eq_imp_length_eq)
  have "map c (take (length p) t) = take (length p) (map c t)" by (simp add: take_map)
  also have "\<dots> = map c (take (length p') t')" by (simp only: a lp take_map)
  finally have B: "map c (take (length p) t) = map c (take (length p') t')" .
  show ?thesis unfolding matchesAt_def by (simp only: B) (simp only: b lt lp)
qed

lemma countMatches_caseless:
  "map c t = map c t' \<Longrightarrow> map c p = map c p' \<Longrightarrow> countMatches c p t = countMatches c p' t'"
proof (induction c p t arbitrary: t' rule: countMatches.induct)
  case (1 c p t)
  from "1.prems"(1) have lt: "length t = length t'" by (rule map_eq_imp_length_eq)
  from "1.prems"(2) have lp: "length p = length p'" by (rule map_eq_imp_length_eq)
  have m: "matchesAt c p t = matchesAt c p' t'"
    using "1.prems" by (rule matchesAt_caseless)
  show ?case
  proof (cases "p = []")
    case True
    with lp lt show ?thesis by (simp add: countMatches_empty)
  next
    case pne: False
    with lp have pne': "p' \<noteq> []" by auto
    show ?thesis
    proof (cases "t = []")
      case True
      with lt pne pne' show ?thesis by (simp add: countMatches_Nil)
    next
      case tne: False
      with lt have tne': "t' \<noteq> []" by auto
      show ?thesis
      proof (cases "matchesAt c p t")
        case True
        have "map c (drop (length p) t) = drop (length p) (map c t)" by (simp add: drop_map)
        also have "\<dots> = map c (drop (length p') t')" by (simp only: "1.prems"(1) lp drop_map)
        finally have d: "map c (drop (length p) t) = map c (drop (length p') t')" .
        from True m have "matchesAt c p' t'" by simp
        with "1.IH"(1) [OF pne tne True d "1.prems"(2)] True pne tne pne' tne' show ?thesis
          by (simp add: countMatches_match)
      next
        case False
        have "map c (tl t) = tl (map c t)" by (simp add: map_tl)
        also have "\<dots> = map c (tl t')" by (simp only: "1.prems"(1) map_tl)
        finally have d: "map c (tl t) = map c (tl t')" .
        from False m have "\<not> matchesAt c p' t'" by simp
        with "1.IH"(2) [OF pne tne False d "1.prems"(2)] False pne tne pne' tne' show ?thesis
          by (simp add: countMatches_skip)
      qed
    qed
  qed
qed

lemma countMatches_bound:
  "p \<noteq> [] \<Longrightarrow> countMatches c p t * length p \<le> length t"
proof (induction c p t rule: countMatches.induct)
  case (1 c p t)
  note pne = "1.prems"
  show ?case
  proof (cases "t = []")
    case True
    with pne show ?thesis by (simp add: countMatches_Nil)
  next
    case tne: False
    show ?thesis
    proof (cases "matchesAt c p t")
      case True
      then have "length p \<le> length t" by (simp add: matchesAt_def)
      with "1.IH"(1) [OF pne tne True pne] pne tne True show ?thesis
        by (simp add: countMatches_match)
    next
      case False
      with "1.IH"(2) [OF pne tne False pne] pne tne show ?thesis
        by (simp add: countMatches_skip)
    qed
  qed
qed

lemma countMatches_zero:
  "p \<noteq> [] \<Longrightarrow>
   (countMatches c p t = 0) = (\<forall>i < length t. \<not> matchesAt c p (drop i t))"
proof (induction c p t rule: countMatches.induct)
  case (1 c p t)
  note pne = "1.prems"
  show ?case
  proof (cases t)
    case Nil
    with pne show ?thesis by (simp add: countMatches_Nil)
  next
    case (Cons u us)
    then have tne: "t \<noteq> []" by simp
    show ?thesis
    proof (cases "matchesAt c p t")
      case True
      then have "\<exists>i < length t. matchesAt c p (drop i t)"
        using tne by (intro exI [of _ 0]) simp
      with pne tne True show ?thesis
        by (auto simp: countMatches_match)
    next
      case False
      have "(\<forall>i < length t. \<not> matchesAt c p (drop i t))
            = (\<forall>i < length us. \<not> matchesAt c p (drop i us))"
      proof
        assume a: "\<forall>i < length t. \<not> matchesAt c p (drop i t)"
        show "\<forall>i < length us. \<not> matchesAt c p (drop i us)"
        proof (intro allI impI)
          fix i assume "i < length us"
          with a [rule_format, of "Suc i"] Cons show "\<not> matchesAt c p (drop i us)" by simp
        qed
      next
        assume a: "\<forall>i < length us. \<not> matchesAt c p (drop i us)"
        show "\<forall>i < length t. \<not> matchesAt c p (drop i t)"
        proof (intro allI impI)
          fix i assume i: "i < length t"
          show "\<not> matchesAt c p (drop i t)"
          proof (cases i)
            case 0
            with False show ?thesis by simp
          next
            case (Suc j)
            with i Cons a [rule_format, of j] show ?thesis by simp
          qed
        qed
      qed
      with "1.IH"(2) [OF pne tne False pne] pne tne False Cons show ?thesis
        by (simp add: countMatches_skip)
    qed
  qed
qed

lemma countMatches_leftmost:
  assumes pne: "p \<noteq> []" and mp: "map c m = map c p"
    and none: "\<forall>i < length pre. \<not> matchesAt c p (drop i (pre @ m @ post))"
  shows "countMatches c p (pre @ m @ post) = Suc (countMatches c p post)"
  using none
proof (induction pre)
  case Nil
  from mp have l: "length m = length p" by (rule map_eq_imp_length_eq)
  with pne have mne: "m @ post \<noteq> []" by auto
  have "matchesAt c p (m @ post)"
    using mp l by (simp add: matchesAt_def)
  from countMatches_match [OF pne mne this] l show ?case by simp
next
  case (Cons u pre)
  have nm: "\<not> matchesAt c p ((u # pre) @ m @ post)"
    using Cons.prems [rule_format, of 0] by simp
  have "\<forall>i < length pre. \<not> matchesAt c p (drop i (pre @ m @ post))"
  proof (intro allI impI)
    fix i assume "i < length pre"
    with Cons.prems [rule_format, of "Suc i"]
    show "\<not> matchesAt c p (drop i (pre @ m @ post))" by simp
  qed
  from Cons.IH [OF this] countMatches_skip [OF pne _ nm] show ?case by simp
qed

lemma countMatches_substring:
  assumes pne: "p \<noteq> []" and mp: "map c m = map c p"
  shows "0 < countMatches c p (pre @ m @ post)"
proof -
  from mp have l: "length m = length p" by (rule map_eq_imp_length_eq)
  have "matchesAt c p (drop (length pre) (pre @ m @ post))"
    using mp l by (simp add: matchesAt_def)
  moreover have "length pre < length (pre @ m @ post)" using l pne by (cases m) auto
  ultimately have "\<not> (\<forall>i < length (pre @ m @ post). \<not> matchesAt c p (drop i (pre @ m @ post)))"
    by blast
  with countMatches_zero [OF pne, of c "pre @ m @ post"]
  have "countMatches c p (pre @ m @ post) \<noteq> 0" by blast
  then show ?thesis by blast
qed

section \<open>Properties of the ranking\<close>

lemma insert_cmp_insort:
  "insert_cmp byCountDesc x ys = insort_key (\<lambda>e. - int (count e)) x ys"
  by (induction ys) (simp_all add: byCountDesc_def)

lemma Array_sort_sort_key:
  "Array_sort byCountDesc xs = sort_key (\<lambda>e. - int (count e)) xs"
  by (induction xs) (simp_all add: Array_sort_def insert_cmp_insort)

lemma length_insert_cmp: "length (insert_cmp cmp x ys) = Suc (length ys)"
  by (induction ys) simp_all

lemma length_Array_sort: "length (Array_sort cmp xs) = length xs"
  by (induction xs) (simp_all add: Array_sort_def length_insert_cmp)

lemma Array_sort_sorted:
  "sorted_wrt (\<lambda>a b. count b \<le> count a) (Array_sort byCountDesc xs)"
proof -
  have "sorted (map (\<lambda>e. - int (count e)) (sort_key (\<lambda>e. - int (count e)) xs))"
    by (rule sorted_sort_key)
  then show ?thesis by (simp add: sorted_map Array_sort_sort_key)
qed

lemma Array_sort_stable:
  "filter (\<lambda>e. count e = n) (Array_sort byCountDesc xs) = filter (\<lambda>e. count e = n) xs"
proof -
  have "filter (\<lambda>e. - int (count e) = - int n) (sort_key (\<lambda>e. - int (count e)) xs)
        = filter (\<lambda>e. - int (count e) = - int n) xs"
    by (rule sort_key_stable)
  then show ?thesis by (simp add: Array_sort_sort_key)
qed

lemma prefix_filter_take: "prefix (filter P (take n xs)) (filter P xs)"
proof -
  have "filter P xs = filter P (take n xs) @ filter P (drop n xs)"
    by (simp add: filter_append [symmetric])
  then show ?thesis by (metis prefixI)
qed

lemma keys_countEmoji:
  "map fst (countEmoji obj e) = (if e \<in> set (map fst obj) then map fst obj else map fst obj @ [e])"
  by (simp add: countEmoji_def obj_set_def obj_get_def map_fst_modify map_of_None_iff)

lemma keys_countEmojis:
  "map fst (foldl countEmoji obj es)
     = map fst obj @ filter (\<lambda>e. e \<notin> set (map fst obj)) (firstSeen es)"
proof (induction es arbitrary: obj)
  case Nil
  then show ?case by simp
next
  case (Cons e es)
  show ?case
  proof (cases "e \<in> set (map fst obj)")
    case True
    then have "filter (\<lambda>y. y \<notin> set (map fst obj)) (filter (\<lambda>y. y \<noteq> e) (firstSeen es))
               = filter (\<lambda>y. y \<notin> set (map fst obj)) (firstSeen es)"
      by (auto intro: filter_cong)
    with True Cons [of "countEmoji obj e"] show ?thesis
      by (simp add: keys_countEmoji)
  next
    case False
    have "filter (\<lambda>y. y \<notin> set (map fst obj @ [e])) (firstSeen es)
          = filter (\<lambda>y. y \<notin> set (map fst obj)) (filter (\<lambda>y. y \<noteq> e) (firstSeen es))"
      by (auto intro: filter_cong)
    with False Cons [of "countEmoji obj e"] show ?thesis
      by (simp add: keys_countEmoji)
  qed
qed

section \<open>Properties of the whole analysis\<close>

text \<open>
  \<open>analyzeChat\<close> returns exactly when \<open>messages\<close> is an array without \<open>null\<close> and
  without a message on whose date line 56 throws, and then a bucket is what
  \<open>accumulate\<close> makes of the messages of its key, in their order, from a new bucket.
\<close>

lemma keys_pass1_not_index:
  "\<forall>k \<in> set (map fst (foldl (stepMessage E) [] ms)). arrayIndex k = None"
  using keys_foldl_step [of E "[]" ms] by (auto simp: monthKeyOf_not_index)

lemma analyzeChat_Inr:
  "(analyzeChat E c = Inr a) =
     (\<exists>ms. get c (ascii ''messages'') = JArr ms \<and> JNull \<notin> set ms \<and> JUndefined \<notin> set ms \<and>
        (\<forall>m \<in> set ms. \<not> dateThrows m) \<and>
        a = \<lparr>chatName = get c (ascii ''name''), chatId = get c (ascii ''id''),
             totalMessages = length ms,
             monthlyStats = map (\<lambda>(k, b). (k, finalize b)) (foldl (stepMessage E) [] ms)\<rparr>)"
proof (cases "get c (ascii ''messages'')")
  case (JArr ms)
  then have c: "c \<noteq> JNull" "c \<noteq> JUndefined" by auto
  have p2: "foldl (\<lambda>s k. modify k finalize s) (foldl (stepMessage E) [] ms)
              (Object_keys (foldl (stepMessage E) [] ms))
            = map (\<lambda>(k, b). (k, finalize b)) (foldl (stepMessage E) [] ms)"
    by (rule pass2) (simp_all add: distinct_foldl_step keys_pass1_not_index del: set_map)
  show ?thesis
  proof (cases "forEach (processMessage E) [] ms")
    case (Inl e)
    moreover have "\<not> (JNull \<notin> set ms \<and> JUndefined \<notin> set ms \<and> (\<forall>m \<in> set ms. \<not> dateThrows m))"
      using Inl forEach_step [of ms E "[]"] by auto
    ultimately show ?thesis using JArr c by (auto simp: analyzeChat_def)
  next
    case (Inr s)
    from forEach_Inr [OF Inr] p2 Inr JArr c show ?thesis
      by (auto simp: analyzeChat_def)
  qed
qed (auto simp: analyzeChat_def)

lemma map_of_foldl_step:
  "map_of (foldl (stepMessage E) s ms) k =
     (let mk = filter (\<lambda>m. isMessage m \<and> monthKeyOf (dateLocal E (get m (ascii ''date''))) = k) ms in
      case map_of s k of
        Some b \<Rightarrow> Some (foldl (\<lambda>b m. accumulate E m b) b mk)
      | None \<Rightarrow> if mk = [] then None else Some (foldl (\<lambda>b m. accumulate E m b) (newBucket k) mk))"
proof (induction ms arbitrary: s)
  case Nil
  then show ?case by (simp split: option.splits)
next
  case (Cons m ms)
  show ?case
    by (simp add: Cons [of "stepMessage E s m"] map_of_step Let_def split: option.splits)
qed

lemma messageCount_foldl_accumulate:
  "messageCount (foldl (\<lambda>b m. accumulate E m b) b ms) = messageCount b + length ms"
  by (induction ms arbitrary: b) (simp_all add: accumulate_messageCount)

lemma month_foldl_accumulate: "month (foldl (\<lambda>b m. accumulate E m b) b ms) = month b"
  by (induction ms arbitrary: b) (simp_all add: accumulate_month)

lemma finalize_fields:
  "month (finalize b) = month b" "messageCount (finalize b) = messageCount b"
  "photoCount (finalize b) = photoCount b" "keywordCounts (finalize b) = keywordCounts b"
  "emojis (finalize b) = emojis b"
  by (simp_all add: finalize_def Let_def)

lemma map_of_finalized:
  "map_of (map (\<lambda>(k, b). (k, finalize b)) s) k = map_option finalize (map_of s k)"
  by (induction s) auto

lemma Object_values_stats:
  "Object_values (map (\<lambda>(k, b). (k, finalize b)) (foldl (stepMessage E) [] ms))
     = map (\<lambda>kv. finalize (snd kv)) (foldl (stepMessage E) [] ms)"
proof -
  have "\<forall>k \<in> set (map fst (map (\<lambda>(k, b). (k, finalize b)) (foldl (stepMessage E) [] ms))).
          arrayIndex k = None"
    using keys_pass1_not_index [of E ms] by (auto simp: o_def split_def)
  then have "Object_entries (map (\<lambda>(k, b). (k, finalize b)) (foldl (stepMessage E) [] ms))
               = map (\<lambda>(k, b). (k, finalize b)) (foldl (stepMessage E) [] ms)"
    by (rule Object_entries_id)
  then show ?thesis by (simp add: Object_values_def o_def split_def)
qed

lemma bucketTotal_eq:
  assumes "analyzeChat E chatData = Inr a" and "get chatData (ascii ''messages'') = JArr messages"
  shows "bucketTotal a = length (filter isMessage messages)"
proof -
  from assms obtain ms: "JNull \<notin> set messages" "JUndefined \<notin> set messages"
    and a: "monthlyStats a = map (\<lambda>(k, b). (k, finalize b)) (foldl (stepMessage E) [] messages)"
    by (auto simp: analyzeChat_Inr)
  have "bucketTotal a
        = sum_list (map (\<lambda>kv. messageCount (snd kv)) (foldl (stepMessage E) [] messages))"
    by (simp add: bucketTotal_def a Object_values_stats o_def finalize_fields)
  also have "\<dots> = length (filter isMessage messages)"
    using sum_foldl_step [of "[]" E messages] by simp
  finally show ?thesis .
qed

section \<open>The examples, evaluated\<close>

lemma ascii_eq_iff: "(ascii s = ascii t) = (s = t)"
  unfolding ascii_def by (rule inj_map_eq_map) (rule inj_of_char)

lemma newBucket_eval:
  "newBucket k =
     \<lparr>month = k, messageCount = 0, photoCount = 0,
      keywordCounts =
        [([1076, 1086, 1073, 1088, 1072, 1085, 1110, 1095], 0),
         ([1089, 1086, 1083, 1086, 1076, 1082, 1080, 1093], 0),
         ([1076, 1086, 1073, 1088, 1086, 1075, 1086, 32, 1088, 1072, 1085, 1082, 1091], 0),
         ([1089, 1082, 1091, 1095, 1080, 1074], 0)],
      keywordsFormatted = [], emojisFormatted = [], emojis = [], topEmojis = []\<rparr>"
  by (simp add: newBucket_def fixedKeywords_def toLowerCase_def toLowerCase_unit_def
      obj_set_def obj_get_def modify_def)

lemma scenario_counts:
  "map (\<lambda>k. countMatches upperUnit k scenarioText) fixedKeywords = [2, 0, 0, 0]"
  by (simp add: fixedKeywords_def scenarioText_def countMatches.simps matchesAt_def upperUnit_def)

lemma monthKeyOf_eval: "monthKeyOf (Some (2024, 0)) = ascii ''2024-01''"
  by (simp add: monthKeyOf_def getFullYear_def getMonth_def String_num_def String_int_def
      String_nat.simps padStart_def ascii_def)

lemma monthKeyOf_invalid: "monthKeyOf None = ascii ''NaN-NaN''"
  by (simp add: monthKeyOf_NaN)

lemma scenario_hits:
  assumes c: "\<forall>u \<in> set (scenarioText @ concat fixedKeywords). canonicalize E u = upperUnit u"
  shows "map (\<lambda>k. countMatches (canonicalize E) k scenarioText) fixedKeywords = [2, 0, 0, 0]"
proof -
  have "countMatches (canonicalize E) k scenarioText = countMatches upperUnit k scenarioText"
    if "k \<in> set fixedKeywords" for k
    using that c by (intro countMatches_cong) auto
  then have "map (\<lambda>k. countMatches (canonicalize E) k scenarioText) fixedKeywords
             = map (\<lambda>k. countMatches upperUnit k scenarioText) fixedKeywords"
    by simp
  then show ?thesis by (simp only: scenario_counts)
qed

lemma scenario_accumulate:
  assumes c: "\<forall>u \<in> set (scenarioText @ concat fixedKeywords). canonicalize E u = upperUnit u"
    and e: "emojiMatches E scenarioText = [[55357, 56832]]"
  shows "accumulate E scenarioMessage (newBucket k) =
     \<lparr>month = k, messageCount = 1, photoCount = 0,
      keywordCounts =
        [([1076, 1086, 1073, 1088, 1072, 1085, 1110, 1095], 2),
         ([1089, 1086, 1083, 1086, 1076, 1082, 1080, 1093], 0),
         ([1076, 1086, 1073, 1088, 1086, 1075, 1086, 32, 1088, 1072, 1085, 1082, 1091], 0),
         ([1089, 1082, 1091, 1095, 1080, 1074], 0)],
      keywordsFormatted = [], emojisFormatted = [], emojis = [([55357, 56832], 1)],
      topEmojis = []\<rparr>"
proof -
  have t: "textOf E scenarioMessage = scenarioText"
    by (simp add: textOf_def scenarioMessage_def ascii_eq_iff)
  have tr: "truthy (get scenarioMessage (ascii ''text''))"
    by (simp add: scenarioMessage_def ascii_eq_iff scenarioText_def)
  have ph: "\<not> isPhoto scenarioMessage"
    by (simp add: isPhoto_def scenarioMessage_def ascii_eq_iff)
  from scenario_hits [OF c] show ?thesis
    by (simp add: accumulate_def processText_eq t tr ph newBucket_eval e keywordHits_def
        fixedKeywords_def toLowerCase_def toLowerCase_unit_def modify_def countEmoji_def
        obj_set_def obj_get_def)
qed

lemma lowered_not_index:
  "\<forall>k \<in> set (map toLowerCase fixedKeywords). arrayIndex k = None"
  by (simp add: fixedKeywords_def toLowerCase_def toLowerCase_unit_def arrayIndex_def isDigit_def)

lemma example_dateThrows:
  "\<not> dateThrows scenarioMessage" "\<not> dateThrows undatedPhoto" "\<not> dateThrows serviceEntry"
  by (simp_all add: dateThrows_def isMessage_def scenarioMessage_def undatedPhoto_def
      serviceEntry_def ascii_eq_iff)

lemma scenario_analysis:
  assumes d: "dateLocal E (JStr (ascii ''2024-01-05T10:00:00'')) = Some (2024, 0)"
    and c: "\<forall>u \<in> set (scenarioText @ concat fixedKeywords). canonicalize E u = upperUnit u"
    and e: "emojiMatches E scenarioText = [[55357, 56832]]"
  shows "analyzeChat E scenarioExport =
     Inr \<lparr>chatName = JUndefined, chatId = JUndefined, totalMessages = 1,
          monthlyStats =
            [(ascii ''2024-01'',
              \<lparr>month = ascii ''2024-01'', messageCount = 1, photoCount = 0,
               keywordCounts =
                 [([1076, 1086, 1073, 1088, 1072, 1085, 1110, 1095], 2),
                  ([1089, 1086, 1083, 1086, 1076, 1082, 1080, 1093], 0),
                  ([1076, 1086, 1073, 1088, 1086, 1075, 1086, 32, 1088, 1072, 1085, 1082, 1091], 0),
                  ([1089, 1082, 1091, 1095, 1080, 1074], 0)],
               keywordsFormatted =
                 [\<lparr>name = [1076, 1086, 1073, 1088, 1072, 1085, 1110, 1095], nvalue = 2\<rparr>,
                  \<lparr>name = [1089, 1086, 1083, 1086, 1076, 1082, 1080, 1093], nvalue = 0\<rparr>,
                  \<lparr>name = [1076, 1086, 1073, 1088, 1086, 1075, 1086, 32, 1088, 1072, 1085, 1082, 1091],
                    nvalue = 0\<rparr>,
                  \<lparr>name = [1089, 1082, 1091, 1095, 1080, 1074], nvalue = 0\<rparr>],
               emojisFormatted = [\<lparr>name = [55357, 56832], nvalue = 1\<rparr>],
               emojis = [([55357, 56832], 1)],
               topEmojis = [\<lparr>emoji = [55357, 56832], count = 1\<rparr>]\<rparr>)]\<rparr>"
proof -
  have g: "get scenarioMessage (ascii ''date'') = JStr (ascii ''2024-01-05T10:00:00'')"
    by (simp add: scenarioMessage_def ascii_eq_iff)
  have im: "isMessage scenarioMessage"
    by (simp add: isMessage_def scenarioMessage_def ascii_eq_iff)
  have k: "monthKeyOf (dateLocal E (get scenarioMessage (ascii ''date''))) = ascii ''2024-01''"
    using d by (simp add: g monthKeyOf_eval)
  have st: "foldl (stepMessage E) [] [scenarioMessage]
            = [(ascii ''2024-01'', accumulate E scenarioMessage (newBucket (ascii ''2024-01'')))]"
    by (simp add: stepMessage_def im k modify_def Let_def)
  have fin: "finalize (accumulate E scenarioMessage (newBucket (ascii ''2024-01''))) = 
     \<lparr>month = ascii ''2024-01'', messageCount = 1, photoCount = 0,
               keywordCounts =
                 [([1076, 1086, 1073, 1088, 1072, 1085, 1110, 1095], 2),
                  ([1089, 1086, 1083, 1086, 1076, 1082, 1080, 1093], 0),
                  ([1076, 1086, 1073, 1088, 1086, 1075, 1086, 32, 1088, 1072, 1085, 1082, 1091], 0),
                  ([1089, 1082, 1091, 1095, 1080, 1074], 0)],
               keywordsFormatted =
                 [\<lparr>name = [1076, 1086, 1073, 1088, 1072, 1085, 1110, 1095], nvalue = 2\<rparr>,
                  \<lparr>name = [1089, 1086, 1083, 1086, 1076, 1082, 1080, 1093], nvalue = 0\<rparr>,
                  \<lparr>name = [1076, 1086, 1073, 1088, 1086, 1075, 1086, 32, 1088, 1072, 1085, 1082, 1091],
                    nvalue = 0\<rparr>,
                  \<lparr>name = [1089, 1082, 1091, 1095, 1080, 1074], nvalue = 0\<rparr>],
               emojisFormatted = [\<lparr>name = [55357, 56832], nvalue = 1\<rparr>],
               emojis = [([55357, 56832], 1)],
               topEmojis = [\<lparr>emoji = [55357, 56832], count = 1\<rparr>]\<rparr>"
    by (simp add: scenario_accumulate [OF c e] finalize_def rankEmojis_def Object_entries_def
        arrayIndex_def isDigit_def Array_sort_def)
  have "get scenarioExport (ascii ''messages'') = JArr [scenarioMessage]"
    by (simp add: scenarioExport_def)
  moreover have "JNull \<notin> set [scenarioMessage]" "JUndefined \<notin> set [scenarioMessage]"
    by (simp_all add: scenarioMessage_def)
  moreover have "get scenarioExport (ascii ''name'') = JUndefined"
    "get scenarioExport (ascii ''id'') = JUndefined"
    by (simp_all add: scenarioExport_def ascii_eq_iff)
  ultimately show ?thesis
    by (simp add: analyzeChat_Inr example_dateThrows st fin del: foldl.simps)
qed

lemma exampleEnv_date: "dateLocal exampleEnv (JStr (ascii ''2024-01-05T10:00:00'')) = Some (2024, 0)"
  by (simp add: exampleEnv_def isoLocal_def ascii_def isDigit_def digitsValue_def Let_def)

lemma exampleEnv_undated: "dateLocal exampleEnv (JStr (ascii ''not a date'')) = None"
  by (simp add: exampleEnv_def isoLocal_def ascii_def)

lemma exampleEnv_emoji: "emojiMatches exampleEnv scenarioText = [[55357, 56832]]"
  by (simp add: exampleEnv_def scenarioText_def)

lemma exampleEnv_canon:
  "\<forall>u \<in> set (scenarioText @ concat fixedKeywords). canonicalize exampleEnv u = upperUnit u"
  by (simp add: exampleEnv_def)

lemma scenario_finalized:
  "finalize (accumulate exampleEnv scenarioMessage (newBucket (ascii ''2024-01''))) = scenarioBucket"
  by (simp add: scenario_accumulate [OF exampleEnv_canon exampleEnv_emoji] finalize_def
      rankEmojis_def Object_entries_def arrayIndex_def isDigit_def Array_sort_def
      scenarioBucket_def)

lemma undated_accumulate:
  "accumulate E undatedPhoto b = b\<lparr>messageCount := messageCount b + 1, photoCount := photoCount b + 1\<rparr>"
  by (simp add: accumulate_def isPhoto_def processText_eq undatedPhoto_def ascii_eq_iff)

lemma undated_finalized:
  "finalize (accumulate E undatedPhoto (newBucket (ascii ''NaN-NaN''))) = undatedBucket"
  by (simp add: undated_accumulate newBucket_eval finalize_def rankEmojis_def Object_entries_def
      arrayIndex_def isDigit_def Array_sort_def undatedBucket_def)

lemma undated_key:
  "monthKeyOf (dateLocal exampleEnv (get undatedPhoto (ascii ''date''))) = ascii ''NaN-NaN''"
  by (simp add: undatedPhoto_def ascii_eq_iff monthKeyOf_invalid exampleEnv_undated)

lemma scenario_key:
  "monthKeyOf (dateLocal exampleEnv (get scenarioMessage (ascii ''date''))) = ascii ''2024-01''"
  by (simp add: scenarioMessage_def ascii_eq_iff monthKeyOf_eval exampleEnv_date)

lemma example_isMessage:
  "isMessage scenarioMessage" "isMessage undatedPhoto" "\<not> isMessage serviceEntry"
  by (simp_all add: isMessage_def scenarioMessage_def undatedPhoto_def serviceEntry_def ascii_eq_iff)

lemma undated_analysis:
  "analyzeChat exampleEnv undatedExport =
     Inr \<lparr>chatName = JUndefined, chatId = JUndefined, totalMessages = 1,
          monthlyStats = [(ascii ''NaN-NaN'', undatedBucket)]\<rparr>"
proof -
  have st: "foldl (stepMessage exampleEnv) [] [undatedPhoto]
            = [(ascii ''NaN-NaN'', accumulate exampleEnv undatedPhoto (newBucket (ascii ''NaN-NaN'')))]"
    by (simp add: stepMessage_def example_isMessage undated_key modify_def Let_def)
  have "get undatedExport (ascii ''messages'') = JArr [undatedPhoto]"
    by (simp add: undatedExport_def)
  moreover have "JNull \<notin> set [undatedPhoto]" "JUndefined \<notin> set [undatedPhoto]"
    by (simp_all add: undatedPhoto_def)
  moreover have "get undatedExport (ascii ''name'') = JUndefined"
    "get undatedExport (ascii ''id'') = JUndefined"
    by (simp_all add: undatedExport_def ascii_eq_iff)
  ultimately show ?thesis
    by (simp add: analyzeChat_Inr example_dateThrows st undated_finalized del: foldl.simps)
qed

lemma mixed_analysis:
  "analyzeChat exampleEnv mixedExport =
     Inr \<lparr>chatName = JStr (ascii ''chat''), chatId = JNum 7, totalMessages = 3,
          monthlyStats = [(ascii ''2024-01'', scenarioBucket), (ascii ''NaN-NaN'', undatedBucket)]\<rparr>"
proof -
  have st: "foldl (stepMessage exampleEnv) [] [scenarioMessage, undatedPhoto, serviceEntry]
            = [(ascii ''2024-01'', accumulate exampleEnv scenarioMessage (newBucket (ascii ''2024-01''))),
               (ascii ''NaN-NaN'', accumulate exampleEnv undatedPhoto (newBucket (ascii ''NaN-NaN'')))]"
    by (simp add: stepMessage_def example_isMessage undated_key scenario_key modify_def Let_def
        ascii_eq_iff)
  have "get mixedExport (ascii ''messages'') = JArr [scenarioMessage, undatedPhoto, serviceEntry]"
    by (simp add: mixedExport_def ascii_eq_iff)
  moreover have "JNull \<notin> set [scenarioMessage, undatedPhoto, serviceEntry]"
    "JUndefined \<notin> set [scenarioMessage, undatedPhoto, serviceEntry]"
    by (simp_all add: undatedPhoto_def scenarioMessage_def serviceEntry_def)
  moreover have "get mixedExport (ascii ''name'') = JStr (ascii ''chat'')"
    "get mixedExport (ascii ''id'') = JNum 7"
    by (simp_all add: mixedExport_def ascii_eq_iff)
  ultimately show ?thesis
    by (simp add: analyzeChat_Inr example_dateThrows st undated_finalized scenario_finalized del: foldl.simps)
qed

lemma mixed_messages:
  "get mixedExport (ascii ''messages'') = JArr [scenarioMessage, undatedPhoto, serviceEntry]"
  by (simp add: mixedExport_def ascii_eq_iff)

lemma undated_messages: "get undatedExport (ascii ''messages'') = JArr [undatedPhoto]"
  by (simp add: undatedExport_def)

lemma mixed_run: "analyzeChat exampleEnv mixedExport = Inr mixedAnalysis"
  by (simp add: mixed_analysis mixedAnalysis_def)

lemma undated_run: "analyzeChat exampleEnv undatedExport = Inr undatedAnalysis"
  by (simp add: undated_analysis undatedAnalysis_def)

lemma example_unparseable:
  "\<not> unparseable exampleEnv scenarioMessage" "unparseable exampleEnv undatedPhoto"
  "\<not> unparseable exampleEnv serviceEntry"
  by (simp_all add: unparseable_def example_isMessage)
     (simp_all add: scenarioMessage_def undatedPhoto_def ascii_eq_iff exampleEnv_date exampleEnv_undated)

lemma example_throwing: "dateThrows throwingMessage" "unparseable exampleEnv throwingMessage"
  by (simp_all add: dateThrows_def unparseable_def isMessage_def throwingMessage_def ascii_eq_iff
      exampleEnv_def isoLocal_def)

lemma throwing_run: "analyzeChat E throwingExport = Inl TypeError"
proof -
  have "scenarioMessage \<noteq> JNull" "scenarioMessage \<noteq> JUndefined"
    by (simp_all add: scenarioMessage_def)
  then show ?thesis
    by (simp add: analyzeChat_def throwingExport_def processMessage_step example_dateThrows
        example_throwing)
qed

lemma sum_without_key:
  "distinct (map fst s) \<Longrightarrow>
   sum_list (map (\<lambda>kv. g (snd kv)) (filter (\<lambda>kv. fst kv \<noteq> k) s))
     + (case map_of s k of None \<Rightarrow> 0 | Some b \<Rightarrow> g b)
   = (sum_list (map (\<lambda>kv. g (snd kv)) s) :: nat)"
proof (induction s)
  case Nil
  then show ?case by simp
next
  case (Cons kv s)
  show ?case
  proof (cases "fst kv = k")
    case True
    with Cons.prems have n: "map_of s k = None" by (auto simp: map_of_None_iff)
    with Cons have "sum_list (map (\<lambda>kv. g (snd kv)) (filter (\<lambda>kv. fst kv \<noteq> k) s))
                    = sum_list (map (\<lambda>kv. g (snd kv)) s)"
      by simp
    with True n show ?thesis by (cases kv) simp
  next
    case False
    with Cons show ?thesis by (cases kv) simp
  qed
qed

section \<open>Further properties of the buckets\<close>

lemma photoCount_foldl_accumulate:
  "photoCount (foldl (\<lambda>b m. accumulate E m b) b ms) = photoCount b + length (filter isPhoto ms)"
  by (induction ms arbitrary: b) (simp_all add: accumulate_photoCount)

lemma map_of_in_set:
  "distinct (map fst s) \<Longrightarrow> ((k, b) \<in> set s) = (map_of s k = Some b)"
  by (auto intro: map_of_is_SomeI dest: map_of_SomeD)

lemma keys_foldl_accumulate:
  "map fst (keywordCounts (foldl (\<lambda>b m. accumulate E m b) b ms)) = map fst (keywordCounts b)"
  by (induction ms arbitrary: b) (simp_all add: accumulate_keys)

lemma keys_newBucket: "map fst (keywordCounts (newBucket k)) = map toLowerCase fixedKeywords"
  by (simp add: newBucket_eval fixedKeywords_def toLowerCase_def toLowerCase_unit_def)

lemma distinct_lowered: "distinct (map toLowerCase fixedKeywords)"
  by (simp add: fixedKeywords_def toLowerCase_def toLowerCase_unit_def)

lemma emojiKey_not_index: "emojiKey k \<Longrightarrow> arrayIndex k = None"
proof -
  assume "emojiKey k"
  then obtain u where "u \<in> set k" "128 \<le> u" by (auto simp: emojiKey_def list_ex_iff)
  then show ?thesis by (intro arrayIndex_None [of u]) (simp_all add: isDigit_def)
qed

lemma set_firstSeen: "set (firstSeen xs) = set xs"
  by (induction xs) auto

lemma rankEmojis_eq:
  assumes "\<forall>k \<in> set (map fst emojiCounts). emojiKey k"
  shows "rankEmojis emojiCounts = take 4 (Array_sort byCountDesc (map emojiEntry emojiCounts))"
proof -
  have "Object_entries emojiCounts = emojiCounts"
    using assms by (intro Object_entries_id) (auto simp: emojiKey_not_index)
  moreover have "(\<lambda>(e, c). \<lparr>emoji = e, count = c\<rparr>) = emojiEntry"
    by (auto simp: emojiEntry_def fun_eq_iff)
  ultimately show ?thesis by (simp add: rankEmojis_def)
qed

lemma emoji_keys_accumulate:
  assumes "emojiLibrary E" and "\<forall>k \<in> set (map fst (emojis b)). emojiKey k"
  shows "\<forall>k \<in> set (map fst (emojis (accumulate E m b))). emojiKey k"
proof -
  have "list_all emojiKey (emojiMatches E (textOf E m))"
    using assms(1) by (simp add: emojiLibrary_def)
  then have "\<forall>k \<in> set (firstSeen (emojiMatches E (textOf E m))). emojiKey k"
    by (simp add: set_firstSeen list_all_iff)
  moreover have "set (map fst (emojis (accumulate E m b)))
        \<subseteq> set (map fst (emojis b)) \<union> set (firstSeen (emojiMatches E (textOf E m)))"
  proof (cases "truthy (get m (ascii ''text''))")
    case True
    then have "map fst (emojis (accumulate E m b))
               = map fst (foldl countEmoji (emojis b) (emojiMatches E (textOf E m)))"
      by (simp add: accumulate_def processText_eq)
    then show ?thesis by (simp only: keys_countEmojis) auto
  next
    case False
    then show ?thesis by (simp add: accumulate_def processText_eq)
  qed
  ultimately show ?thesis using assms(2) by blast
qed

lemma emoji_keys_foldl:
  assumes "emojiLibrary E" and "\<forall>k \<in> set (map fst (emojis b)). emojiKey k"
  shows "\<forall>k \<in> set (map fst (emojis (foldl (\<lambda>b m. accumulate E m b) b ms))). emojiKey k"
  using assms(2)
proof (induction ms arbitrary: b)
  case Nil
  then show ?case by simp
next
  case (Cons m ms)
  from emoji_keys_accumulate [OF assms(1) Cons.prems]
  have "\<forall>k \<in> set (map fst (emojis (accumulate E m b))). emojiKey k" .
  from Cons.IH [OF this] show ?case by simp
qed

lemma pairEmojis_keys: "list_all emojiKey (pairEmojis t)"
  by (induction t rule: pairEmojis.induct) (auto simp: emojiKey_def)

lemma exampleEnv_library: "emojiLibrary exampleEnv"
  by (simp add: emojiLibrary_def exampleEnv_def pairEmojis_keys)

lemma emoji_keys_of_buckets:
  assumes lib: "emojiLibrary E" and run: "analyzeChat E chatData = Inr a"
    and mem: "(k, b) \<in> set (monthlyStats a)"
  shows "(\<forall>e \<in> set (map fst (emojis b)). emojiKey e)
    \<and> topEmojis b = rankEmojis (emojis b)
    \<and> emojisFormatted b = map (\<lambda>item. \<lparr>name = emoji item, nvalue = count item\<rparr>) (rankEmojis (emojis b))"
proof -
  from run obtain messages
    where a: "monthlyStats a = map (\<lambda>(k, b). (k, finalize b)) (foldl (stepMessage E) [] messages)"
    unfolding analyzeChat_Inr by auto
  define s where "s = foldl (stepMessage E) [] messages"
  from mem obtain b0 where b0: "(k, b0) \<in> set s" and b: "b = finalize b0"
    unfolding a s_def [symmetric] by auto
  have "distinct (map fst s)" unfolding s_def by (simp add: distinct_foldl_step)
  with b0 have look: "map_of s k = Some b0" by (simp only: map_of_in_set)
  define mk where
    "mk = filter (\<lambda>m. isMessage m \<and> monthKeyOf (dateLocal E (get m (ascii ''date''))) = k) messages"
  have "map_of s k = (if mk = [] then None
                      else Some (foldl (\<lambda>b m. accumulate E m b) (newBucket k) mk))"
    unfolding s_def mk_def by (simp add: map_of_foldl_step)
  with look have b0_eq: "b0 = foldl (\<lambda>b m. accumulate E m b) (newBucket k) mk"
    by (cases "mk = []") simp_all
  have "\<forall>e \<in> set (map fst (emojis (newBucket k))). emojiKey e"
    by (simp add: newBucket_def)
  from emoji_keys_foldl [OF lib this, of mk]
  have "\<forall>e \<in> set (map fst (emojis b0)). emojiKey e" unfolding b0_eq .
  then show ?thesis unfolding b by (simp add: finalize_def Let_def)
qed

lemma keywordHits_lookup:
  "map_of (keywordHits c t ks obj) k
     = map_option
         (\<lambda>v. v + sum_list (map (\<lambda>kw. countMatches c kw t) (filter (\<lambda>kw. toLowerCase kw = k) ks)))
         (map_of obj k)"
proof (induction ks arbitrary: obj)
  case Nil
  show ?case by (cases "map_of obj k") (simp_all add: keywordHits_def)
next
  case (Cons kw ks)
  have step: "keywordHits c t (kw # ks) obj
              = keywordHits c t ks
                  (if countMatches c kw t \<noteq> 0
                   then modify (toLowerCase kw) (\<lambda>v. v + countMatches c kw t) obj else obj)"
    by (simp add: keywordHits_def)
  show ?case
    unfolding step Cons.IH
    by (cases "map_of obj k") (auto simp: map_of_modify)
qed

lemma fixedKeywords_own_key:
  assumes "kw \<in> set fixedKeywords"
  shows "filter (\<lambda>k. toLowerCase k = toLowerCase kw) fixedKeywords = [kw]"
proof -
  from assms consider "kw = [1044, 1086, 1073, 1088, 1072, 1085, 1110, 1095]"
    | "kw = [1057, 1086, 1083, 1086, 1076, 1082, 1080, 1093]"
    | "kw = [1044, 1086, 1073, 1088, 1086, 1075, 1086, 32, 1088, 1072, 1085, 1082, 1091]"
    | "kw = [1057, 1082, 1091, 1095, 1080, 1074]"
    by (auto simp: fixedKeywords_def)
  then show ?thesis
    by cases (simp_all add: fixedKeywords_def toLowerCase_def toLowerCase_unit_def)
qed

lemma keyword_count_accumulate:
  assumes "kw \<in> set fixedKeywords" and "truthy (get m (ascii ''text''))"
  shows "obj_get (keywordCounts (accumulate E m b)) (toLowerCase kw)
         = map_option (\<lambda>v. v + countMatches (canonicalize E) kw (textOf E m))
             (obj_get (keywordCounts b) (toLowerCase kw))"
proof -
  have "keywordCounts (accumulate E m b)
        = keywordHits (canonicalize E) (textOf E m) fixedKeywords (keywordCounts b)"
    using assms(2) by (simp add: accumulate_def processText_eq)
  then show ?thesis
    by (simp add: obj_get_def keywordHits_lookup fixedKeywords_own_key [OF assms(1)])
qed

section \<open>The runtime in the analysis\<close>











lemma zonedLocal_zulu:
  "zonedLocal 0 (JStr (ascii ''2024-01-31T23:30:00Z'')) = Some (2024, 0)"
  "zonedLocal 2 (JStr (ascii ''2024-01-31T23:30:00Z'')) = Some (2024, 1)"
  by (simp_all add: zonedLocal_def ascii_def isDigit_def digitsValue_def Let_def daysInMonth_def)


lemma monthKeyOf_february: "monthKeyOf (Some (2024, Suc 0)) = ascii ''2024-02''"
  by (simp add: monthKeyOf_def getFullYear_def getMonth_def String_num_def String_int_def
      String_nat.simps padStart_def ascii_def)

lemma zulu_run:
  assumes "dateLocal E (JStr (ascii ''2024-01-31T23:30:00Z'')) = d"
  shows "map_sum id (\<lambda>a. map fst (monthlyStats a)) (analyzeChat E zuluExport) = Inr [monthKeyOf d]"
proof -
  have m: "isMessage zuluMessage" "\<not> dateThrows zuluMessage" "zuluMessage \<noteq> JNull"
    "zuluMessage \<noteq> JUndefined"
    "get zuluMessage (ascii ''date'') = JStr (ascii ''2024-01-31T23:30:00Z'')"
    by (simp_all add: isMessage_def dateThrows_def zuluMessage_def ascii_eq_iff)
  have "analyzeChat E zuluExport =
          Inr \<lparr>chatName = get zuluExport (ascii ''name''), chatId = get zuluExport (ascii ''id''),
               totalMessages = length [zuluMessage],
               monthlyStats = map (\<lambda>(k, b). (k, finalize b)) (foldl (stepMessage E) [] [zuluMessage])\<rparr>"
    using m by (simp add: analyzeChat_Inr zuluExport_def del: foldl.simps)
  then show ?thesis
    using m assms by (simp add: keys_step comp_def case_prod_unfold)
qed

lemma time_zone_matters:
  "map_sum id (\<lambda>a. map fst (monthlyStats a)) (analyzeChat utcEnv zuluExport) = Inr [ascii ''2024-01'']"
  "map_sum id (\<lambda>a. map fst (monthlyStats a)) (analyzeChat eastEnv zuluExport) = Inr [ascii ''2024-02'']"
  by (simp_all add: zulu_run [OF refl] utcEnv_def eastEnv_def zonedLocal_zulu monthKeyOf_eval
      monthKeyOf_february)

section \<open>Properties of the queries\<close>

lemma digitsPrefix_iff:
  "(digitsPrefix n s = Some r) = (\<exists>d. s = d @ r \<and> length d = n \<and> list_all isDigit d)"
proof (induction n arbitrary: s)
  case 0
  then show ?case by auto
next
  case (Suc n)
  show ?case
  proof (cases s)
    case Nil
    then show ?thesis by auto
  next
    case (Cons u us)
    show ?thesis
    proof (cases "isDigit u")
      case True
      have "(\<exists>d. us = d @ r \<and> length d = n \<and> list_all isDigit d)
            = (\<exists>d. u # us = d @ r \<and> length d = Suc n \<and> list_all isDigit d)"
      proof
        assume "\<exists>d. us = d @ r \<and> length d = n \<and> list_all isDigit d"
        then obtain d where "us = d @ r" "length d = n" "list_all isDigit d" by blast
        with True show "\<exists>d. u # us = d @ r \<and> length d = Suc n \<and> list_all isDigit d"
          by (intro exI [of _ "u # d"]) simp
      next
        assume "\<exists>d. u # us = d @ r \<and> length d = Suc n \<and> list_all isDigit d"
        then obtain d where d: "u # us = d @ r" "length d = Suc n" "list_all isDigit d" by blast
        then obtain d' where "d = u # d'" by (cases d) auto
        with d show "\<exists>d. us = d @ r \<and> length d = n \<and> list_all isDigit d"
          by (intro exI [of _ d']) simp
      qed
      with True Cons Suc [of us] show ?thesis by simp
    next
      case False
      have "\<not> (\<exists>d. u # us = d @ r \<and> length d = Suc n \<and> list_all isDigit d)"
      proof
        assume "\<exists>d. u # us = d @ r \<and> length d = Suc n \<and> list_all isDigit d"
        then obtain d where d: "u # us = d @ r" "length d = Suc n" "list_all isDigit d" by blast
        then obtain d' where "d = u # d'" by (cases d) auto
        with d False show False by simp
      qed
      with False Cons show ?thesis by simp
    qed
  qed
qed

lemma yearFormat_iff: "yearFormat year = (length year = 4 \<and> list_all isDigit year)"
  by (auto simp: yearFormat_def digitsPrefix_iff)

lemma monthFormat_iff:
  "monthFormat monthKey
     = (\<exists>y m. monthKey = y @ 45 # m \<and> length y = 4 \<and> length m = 2
              \<and> list_all isDigit y \<and> list_all isDigit m)"
proof
  assume "monthFormat monthKey"
  then obtain rest where a: "digitsPrefix 4 monthKey = Some (45 # rest)"
    and b: "digitsPrefix 2 rest = Some []"
    by (auto simp: monthFormat_def split: option.splits list.splits)
  from a obtain y where "monthKey = y @ 45 # rest" "length y = 4" "list_all isDigit y"
    unfolding digitsPrefix_iff by blast
  moreover from b have "length rest = 2" "list_all isDigit rest"
    unfolding digitsPrefix_iff by auto
  ultimately show "\<exists>y m. monthKey = y @ 45 # m \<and> length y = 4 \<and> length m = 2
              \<and> list_all isDigit y \<and> list_all isDigit m"
    by blast
next
  assume "\<exists>y m. monthKey = y @ 45 # m \<and> length y = 4 \<and> length m = 2
              \<and> list_all isDigit y \<and> list_all isDigit m"
  then obtain y m where k: "monthKey = y @ 45 # m" "length y = 4" "length m = 2"
    "list_all isDigit y" "list_all isDigit m" by blast
  then have "digitsPrefix 4 monthKey = Some (45 # m)"
    unfolding digitsPrefix_iff by blast
  moreover from k have "digitsPrefix 2 m = Some []"
    unfolding digitsPrefix_iff by simp
  ultimately show "monthFormat monthKey" by (simp add: monthFormat_def)
qed

lemma find_None: "(\<forall>x \<in> set xs. \<not> P x) \<Longrightarrow> find P xs = None"
  by (simp add: find_None_iff)

lemma storedExample_months:
  "map month (monthlyStats storedExample) = [ascii ''2024-01'', ascii ''NaN-NaN'']"
proof -
  have "Object_entries (monthlyStats mixedAnalysis) = monthlyStats mixedAnalysis"
    by (rule Object_entries_id) (simp add: mixedAnalysis_def ascii_def arrayIndex_def isDigit_def)
  then show ?thesis
    by (simp add: storedExample_def upsertDocument_def monthlyStatsArray_def Object_values_def
        mixedAnalysis_def scenarioBucket_def undatedBucket_def)
qed

lemma example_formats:
  "\<not> yearFormat (ascii ''20x4'')" "\<not> monthFormat (ascii ''2024-1'')"
  "yearFormat (ascii ''2023'')" "monthFormat (ascii ''2024-02'')"
  by (simp_all add: yearFormat_def monthFormat_def ascii_def isDigit_def eval_nat_numeral)

lemma storedExample_no_2023:
  "list_all (\<lambda>stat. \<not> startsWith (month stat) (ascii ''2023'' @ ascii ''-''))
     (monthlyStats storedExample)"
proof -
  have "list_all (\<lambda>k. \<not> startsWith k (ascii ''2023'' @ ascii ''-''))
          (map month (monthlyStats storedExample))"
    unfolding storedExample_months by (simp add: startsWith_def ascii_def)
  then show ?thesis by (simp add: list_all_iff)
qed

lemma storedExample_no_february:
  "list_all (\<lambda>stat. month stat \<noteq> ascii ''2024-02'') (monthlyStats storedExample)"
proof -
  have "list_all (\<lambda>k. k \<noteq> ascii ''2024-02'') (map month (monthlyStats storedExample))"
    unfolding storedExample_months by (simp add: ascii_eq_iff)
  then show ?thesis by (simp add: list_all_iff)
qed

section \<open>The claims\<close>

subsection \<open>C1: the sum of the message counts\<close>

text \<open>
  Claim C1 says that the sum of \<open>messageCount\<close> over all buckets is the number of
  entries whose type is \<open>"message"\<close> and whose date is parseable. The code counts an
  entry of type \<open>"message"\<close> whatever its date is: an invalid date only changes the key
  of its bucket. So the sum over all buckets is the number of entries whose type is
  \<open>"message"\<close>, and the number of those with a parseable date is the sum over the
  buckets other than \<open>"NaN-NaN"\<close>.
\<close>

theorem bucket_total_counts_messages:
  assumes "analyzeChat E chatData = Inr a"
    and "get chatData (ascii ''messages'') = JArr messages"
  shows "bucketTotal a = length (filter isMessage messages)
    \<and> sum_list (map (\<lambda>kv. messageCount (snd kv))
         (filter (\<lambda>kv. fst kv \<noteq> ascii ''NaN-NaN'') (Object_entries (monthlyStats a))))
       = length (filter (\<lambda>m. isMessage m \<and> dateLocal E (get m (ascii ''date'')) \<noteq> None) messages)"
proof -
  let ?s = "foldl (stepMessage E) [] messages"
  let ?nan = "ascii ''NaN-NaN''"
  from assms have a: "monthlyStats a = map (\<lambda>(k, b). (k, finalize b)) ?s"
    by (auto simp: analyzeChat_Inr)
  have total: "bucketTotal a = length (filter isMessage messages)"
    using assms by (rule bucketTotal_eq)
  have ent: "Object_entries (monthlyStats a) = monthlyStats a"
    unfolding a using keys_pass1_not_index [of E messages]
    by (intro Object_entries_id) (auto simp: o_def split_def)
  have d: "distinct (map fst (monthlyStats a))"
    unfolding a using distinct_foldl_step [of "[]" E messages] by (simp add: o_def split_def)
  have all: "sum_list (map (\<lambda>kv. messageCount (snd kv)) (monthlyStats a)) = bucketTotal a"
    by (simp add: bucketTotal_def Object_values_def ent o_def)
  have nan: "(case map_of (monthlyStats a) ?nan of None \<Rightarrow> 0 | Some b \<Rightarrow> messageCount b)
             = length (filter (\<lambda>m. isMessage m \<and> dateLocal E (get m (ascii ''date'')) = None) messages)"
    by (simp add: a map_of_finalized map_of_foldl_step Let_def monthKeyOf_NaN
        messageCount_foldl_accumulate finalize_fields newBucket_def split: option.splits)
  have "length (filter isMessage messages)
        = length (filter (\<lambda>m. isMessage m \<and> dateLocal E (get m (ascii ''date'')) \<noteq> None) messages)
          + length (filter (\<lambda>m. isMessage m \<and> dateLocal E (get m (ascii ''date'')) = None) messages)"
    by (induction messages) auto
  with sum_without_key [OF d, of messageCount ?nan] total all nan ent show ?thesis
    by simp
qed

text \<open>
  An export with a dated message, a message whose date does not parse and a service
  entry: two buckets, with a total of 2.
\<close>

theorem bucket_total_counts_messages_witness:
  "analyzeChat exampleEnv mixedExport = Inr mixedAnalysis
   \<and> get mixedExport (ascii ''messages'') = JArr [scenarioMessage, undatedPhoto, serviceEntry]
   \<and> bucketTotal mixedAnalysis = 2
   \<and> length (filter isMessage [scenarioMessage, undatedPhoto, serviceEntry]) = 2"
  using bucket_total_counts_messages [OF mixed_run mixed_messages]
  by (simp add: mixed_run mixed_messages example_isMessage)

text \<open>
  C1 as stated fails on an export whose only entry is a message with the date
  \<open>"not a date"\<close>: the buckets sum to 1, and no entry has a parseable date.
\<close>

theorem bucket_total_counterexample:
  "analyzeChat exampleEnv undatedExport = Inr undatedAnalysis
   \<and> get undatedExport (ascii ''messages'') = JArr [undatedPhoto]
   \<and> bucketTotal undatedAnalysis = 1
   \<and> length (filter (\<lambda>m. isMessage m \<and> dateLocal exampleEnv (get m (ascii ''date'')) \<noteq> None)
        [undatedPhoto]) = 0"
proof -
  have "Object_entries [(ascii ''NaN-NaN'', undatedBucket)] = [(ascii ''NaN-NaN'', undatedBucket)]"
    by (rule Object_entries_id) (simp add: ascii_def arrayIndex_def isDigit_def)
  then have "bucketTotal undatedAnalysis = 1"
    by (simp add: bucketTotal_def undatedAnalysis_def Object_values_def undatedBucket_def)
  moreover have "dateLocal exampleEnv (get undatedPhoto (ascii ''date'')) = None"
    by (simp add: undatedPhoto_def ascii_eq_iff exampleEnv_undated)
  ultimately show ?thesis by (simp add: undated_run undated_messages)
qed

subsection \<open>C2: a message whose date does not parse\<close>

text \<open>
  Claim C2 says that a message of type \<open>"message"\<close> whose date cannot be parsed is
  skipped, that is excluded from the counts of every bucket, and that the pass completes
  without error. The code does not skip it (see C9). What holds: a message whose date
  gives an invalid \<open>Date\<close> changes no bucket other than \<open>"NaN-NaN"\<close>, so every other
  bucket (its \<open>messageCount\<close>, \<open>photoCount\<close>, keyword and emoji counts) is what it is
  on the export without these messages, and the invalid \<open>Date\<close> raises nothing. The pass
  completes exactly when no element of \<open>messages\<close> is \<open>null\<close> and no message has a date
  on which the constructor of \<open>Date\<close> throws (an object with an own property
  \<open>toString\<close>, or an array that holds one); otherwise it ends with a \<open>TypeError\<close>,
  which nothing in \<open>analyzeChat\<close> catches.
\<close>

theorem unparseable_date_other_buckets:
  assumes "get chatData (ascii ''messages'') = JArr messages"
    and "get chatData' (ascii ''messages'') = JArr (filter (\<lambda>m. \<not> unparseable E m) messages)"
  shows "if JNull \<in> set messages \<or> JUndefined \<in> set messages \<or> list_ex dateThrows messages
         then analyzeChat E chatData = Inl TypeError
         else \<exists>a a'. analyzeChat E chatData = Inr a \<and> analyzeChat E chatData' = Inr a'
                \<and> (\<forall>k. k \<noteq> ascii ''NaN-NaN'' \<longrightarrow>
                       obj_get (monthlyStats a) k = obj_get (monthlyStats a') k)"
proof (cases "JNull \<in> set messages \<or> JUndefined \<in> set messages \<or> list_ex dateThrows messages")
  case True
  then have "analyzeChat E chatData \<noteq> Inr a" for a
    using assms(1) by (auto simp: analyzeChat_Inr list_ex_iff)
  then obtain e where "analyzeChat E chatData = Inl e"
    by (cases "analyzeChat E chatData") auto
  then have "analyzeChat E chatData = Inl TypeError" by (cases e) simp
  with True show ?thesis by simp
next
  case False
  then have n: "JNull \<notin> set messages" "JUndefined \<notin> set messages"
    "\<forall>m \<in> set messages. \<not> dateThrows m"
    by (auto simp: list_ex_iff)
  let ?ms' = "filter (\<lambda>m. \<not> unparseable E m) messages"
  let ?a = "\<lparr>chatName = get chatData (ascii ''name''), chatId = get chatData (ascii ''id''),
             totalMessages = length messages,
             monthlyStats = map (\<lambda>(k, b). (k, finalize b)) (foldl (stepMessage E) [] messages)\<rparr>"
  let ?a' = "\<lparr>chatName = get chatData' (ascii ''name''), chatId = get chatData' (ascii ''id''),
             totalMessages = length ?ms',
             monthlyStats = map (\<lambda>(k, b). (k, finalize b)) (foldl (stepMessage E) [] ?ms')\<rparr>"
  have r: "analyzeChat E chatData = Inr ?a"
    using n assms(1) by (simp add: analyzeChat_Inr)
  have "JNull \<notin> set ?ms'" "JUndefined \<notin> set ?ms'" "\<forall>m \<in> set ?ms'. \<not> dateThrows m"
    using n by auto
  then have r': "analyzeChat E chatData' = Inr ?a'"
    using assms(2) by (simp add: analyzeChat_Inr del: set_filter)
  have same: "obj_get (monthlyStats ?a) k = obj_get (monthlyStats ?a') k"
    if k: "k \<noteq> ascii ''NaN-NaN''" for k
  proof -
    have "filter (\<lambda>m. isMessage m \<and> monthKeyOf (dateLocal E (get m (ascii ''date''))) = k) ?ms'
          = filter (\<lambda>m. isMessage m \<and> monthKeyOf (dateLocal E (get m (ascii ''date''))) = k) messages"
      using k by (auto simp: unparseable_def monthKeyOf_NaN [symmetric] intro: filter_cong)
    then show ?thesis
      by (simp add: obj_get_def map_of_finalized map_of_foldl_step del: filter_filter)
  qed
  from r r' same have "\<exists>a a'. analyzeChat E chatData = Inr a \<and> analyzeChat E chatData' = Inr a'
                \<and> (\<forall>k. k \<noteq> ascii ''NaN-NaN'' \<longrightarrow>
                       obj_get (monthlyStats a) k = obj_get (monthlyStats a') k)"
    by blast
  with False show ?thesis by simp
qed

text \<open>
  The mixed export and the same export without its undated message: the pass completes
  on both and the bucket \<open>"2024-01"\<close> is the same. The export with the date
  \<open>{"toString": 1}\<close>: the pass ends with a \<open>TypeError\<close>.
\<close>

theorem unparseable_date_other_buckets_witness:
  "get mixedExport (ascii ''messages'') = JArr [scenarioMessage, undatedPhoto, serviceEntry]
   \<and> get datedExport (ascii ''messages'')
       = JArr (filter (\<lambda>m. \<not> unparseable exampleEnv m) [scenarioMessage, undatedPhoto, serviceEntry])
   \<and> JNull \<notin> set [scenarioMessage, undatedPhoto, serviceEntry]
   \<and> JUndefined \<notin> set [scenarioMessage, undatedPhoto, serviceEntry]
   \<and> \<not> list_ex dateThrows [scenarioMessage, undatedPhoto, serviceEntry]
   \<and> (\<exists>a'. analyzeChat exampleEnv datedExport = Inr a'
          \<and> obj_get (monthlyStats a') (ascii ''2024-01'') = Some scenarioBucket)
   \<and> get throwingExport (ascii ''messages'') = JArr [scenarioMessage, throwingMessage]
   \<and> get scenarioExport (ascii ''messages'')
       = JArr (filter (\<lambda>m. \<not> unparseable exampleEnv m) [scenarioMessage, throwingMessage])
   \<and> list_ex dateThrows [scenarioMessage, throwingMessage]
   \<and> analyzeChat exampleEnv throwingExport = Inl TypeError"
proof -
  have n: "\<not> (JNull \<in> set [scenarioMessage, undatedPhoto, serviceEntry]
             \<or> JUndefined \<in> set [scenarioMessage, undatedPhoto, serviceEntry]
             \<or> list_ex dateThrows [scenarioMessage, undatedPhoto, serviceEntry])"
    by (simp add: example_dateThrows) (simp add: undatedPhoto_def scenarioMessage_def serviceEntry_def)
  have g: "get datedExport (ascii ''messages'')
       = JArr (filter (\<lambda>m. \<not> unparseable exampleEnv m) [scenarioMessage, undatedPhoto, serviceEntry])"
    by (simp add: datedExport_def example_unparseable)
  have k: "ascii ''2024-01'' \<noteq> ascii ''NaN-NaN''" by (simp add: ascii_eq_iff)
  from unparseable_date_other_buckets [OF mixed_messages g] n
  obtain a a' where a: "analyzeChat exampleEnv mixedExport = Inr a"
    and a': "analyzeChat exampleEnv datedExport = Inr a'"
    and same: "\<forall>k. k \<noteq> ascii ''NaN-NaN'' \<longrightarrow>
                 obj_get (monthlyStats a) k = obj_get (monthlyStats a') k"
    by (simp only: if_False) blast
  from a have "a = mixedAnalysis" by (simp add: mixed_run)
  with same [rule_format, OF k]
  have b: "obj_get (monthlyStats a') (ascii ''2024-01'') = Some scenarioBucket"
    by (simp add: mixedAnalysis_def obj_get_def)
  have t: "list_ex dateThrows [scenarioMessage, throwingMessage]"
    by (simp add: example_throwing)
  have gt: "get throwingExport (ascii ''messages'') = JArr [scenarioMessage, throwingMessage]"
    by (simp add: throwingExport_def)
  have gt': "get scenarioExport (ascii ''messages'')
       = JArr (filter (\<lambda>m. \<not> unparseable exampleEnv m) [scenarioMessage, throwingMessage])"
    by (simp add: scenarioExport_def example_unparseable example_throwing)
  from unparseable_date_other_buckets [OF gt gt'] t
  have e: "analyzeChat exampleEnv throwingExport = Inl TypeError"
    by simp
  from n a' b mixed_messages g gt gt' t e show ?thesis by blast
qed

text \<open>
  C2 as stated fails on the export whose only entry is an undated message with a
  photo: its bucket \<open>"NaN-NaN"\<close> has \<open>messageCount\<close> 1 and \<open>photoCount\<close> 1, whereas
  the export without the message has no bucket at all. It fails also on the export
  with the date \<open>{"toString": 1}\<close>, which no runtime parses: the pass does not
  complete.
\<close>

theorem unparseable_date_counterexample:
  "unparseable exampleEnv undatedPhoto
   \<and> analyzeChat exampleEnv undatedExport = Inr undatedAnalysis
   \<and> obj_get (monthlyStats undatedAnalysis) (ascii ''NaN-NaN'') = Some undatedBucket
   \<and> messageCount undatedBucket = 1 \<and> photoCount undatedBucket = 1
   \<and> analyzeChat exampleEnv emptyExport
       = Inr \<lparr>chatName = JUndefined, chatId = JUndefined, totalMessages = 0, monthlyStats = []\<rparr>
   \<and> get throwingMessage (ascii ''type'') = JStr (ascii ''message'')
   \<and> get throwingMessage (ascii ''date'') = JObj [(ascii ''toString'', JNum 1)]
   \<and> analyzeChat exampleEnv throwingExport = Inl TypeError"
  by (simp add: example_unparseable undated_run undatedAnalysis_def obj_get_def undatedBucket_def
      analyzeChat_Inr emptyExport_def ascii_eq_iff throwing_run throwingMessage_def)

subsection \<open>C3: the ranking of the emojis\<close>

text \<open>
  Claim C3: for the emoji table of a bucket, the ranking returns at most 4 pairs, sorted
  descending by count, and emojis with equal counts come in the order in which their
  entries were created during the pass; for five emojis with the counts 3, 3, 2, 1, 1
  in this order of creation the result is the first four. The table lists its entries
  in creation order, which is the order of first occurrence of the emojis
  (\<open>firstSeen\<close>); its keys are matches of the emoji pattern (lemma
  \<open>emoji_keys_of_buckets\<close>), so none is an array index, which \<open>Object.entries\<close>
  would list first. The ranking is a prefix of the stable sort of the entries: with the
  rest of the sorted array it is sorted and holds, for every count, the entries of that
  count in creation order.
\<close>

theorem top_emojis_ranking:
  assumes "\<forall>k \<in> set (map fst emojiCounts). emojiKey k"
  shows "length (rankEmojis emojiCounts) = min 4 (length emojiCounts)
    \<and> sorted_wrt (\<lambda>x y. count y \<le> count x) (rankEmojis emojiCounts)
    \<and> (\<forall>n. prefix (filter (\<lambda>x. count x = n) (rankEmojis emojiCounts))
                   (filter (\<lambda>x. count x = n) (map emojiEntry emojiCounts)))
    \<and> (\<exists>rest. sorted_wrt (\<lambda>x y. count y \<le> count x) (rankEmojis emojiCounts @ rest)
          \<and> (\<forall>n. filter (\<lambda>x. count x = n) (rankEmojis emojiCounts @ rest)
                  = filter (\<lambda>x. count x = n) (map emojiEntry emojiCounts)))
    \<and> map fst (foldl countEmoji [] es) = firstSeen es
    \<and> rankEmojis partyTable
        = [\<lparr>emoji = [55356, 57225], count = 3\<rparr>, \<lparr>emoji = [55357, 56613], count = 3\<rparr>,
           \<lparr>emoji = [55357, 56832], count = 2\<rparr>, \<lparr>emoji = [55358, 56691], count = 1\<rparr>]"
proof -
  let ?sorted = "Array_sort byCountDesc (map emojiEntry emojiCounts)"
  have r: "rankEmojis emojiCounts = take 4 ?sorted"
    using assms by (rule rankEmojis_eq)
  have len: "length (rankEmojis emojiCounts) = min 4 (length emojiCounts)"
    by (simp add: r length_Array_sort min.commute)
  have srt: "sorted_wrt (\<lambda>x y. count y \<le> count x) ?sorted"
    by (rule Array_sort_sorted)
  then have s4: "sorted_wrt (\<lambda>x y. count y \<le> count x) (rankEmojis emojiCounts)"
    unfolding r by (rule sorted_wrt_take)
  have st: "filter (\<lambda>x. count x = n) ?sorted = filter (\<lambda>x. count x = n) (map emojiEntry emojiCounts)"
    for n by (rule Array_sort_stable)
  have pre: "prefix (filter (\<lambda>x. count x = n) (rankEmojis emojiCounts))
                   (filter (\<lambda>x. count x = n) (map emojiEntry emojiCounts))" for n
    unfolding r st [symmetric] by (rule prefix_filter_take)
  have whole: "rankEmojis emojiCounts @ drop 4 ?sorted = ?sorted"
    unfolding r by (rule append_take_drop_id)
  have ex: "\<exists>rest. sorted_wrt (\<lambda>x y. count y \<le> count x) (rankEmojis emojiCounts @ rest)
          \<and> (\<forall>n. filter (\<lambda>x. count x = n) (rankEmojis emojiCounts @ rest)
                  = filter (\<lambda>x. count x = n) (map emojiEntry emojiCounts))"
    using srt st by (intro exI [of _ "drop 4 ?sorted"]) (simp only: whole, simp)
  have fs: "map fst (foldl countEmoji [] es) = firstSeen es"
    using keys_countEmojis [of "[]" es] by simp
  have party: "rankEmojis partyTable
        = [\<lparr>emoji = [55356, 57225], count = 3\<rparr>, \<lparr>emoji = [55357, 56613], count = 3\<rparr>,
           \<lparr>emoji = [55357, 56832], count = 2\<rparr>, \<lparr>emoji = [55358, 56691], count = 1\<rparr>]"
    by (simp add: partyTable_def rankEmojis_def Object_entries_def arrayIndex_def isDigit_def
        Array_sort_def byCountDesc_def)
  from len s4 pre ex fs party show ?thesis by blast
qed

text \<open>
  The table of the scenario: the keys are emojis, and the two emojis of count 3 keep
  their order.
\<close>

theorem top_emojis_ranking_witness:
  "list_all emojiKey (map fst partyTable)
   \<and> length (rankEmojis partyTable) = 4
   \<and> sorted_wrt (\<lambda>x y. count y \<le> count x) (rankEmojis partyTable)
   \<and> prefix (filter (\<lambda>x. count x = 3) (rankEmojis partyTable))
            [\<lparr>emoji = [55356, 57225], count = 3\<rparr>, \<lparr>emoji = [55357, 56613], count = 3\<rparr>]"
proof -
  have k: "\<forall>k \<in> set (map fst partyTable). emojiKey k"
    by (simp add: partyTable_def emojiKey_def)
  have f: "filter (\<lambda>x. count x = 3) (map emojiEntry partyTable)
           = [\<lparr>emoji = [55356, 57225], count = 3\<rparr>, \<lparr>emoji = [55357, 56613], count = 3\<rparr>]"
    by (simp add: partyTable_def emojiEntry_def)
  have l: "min 4 (length partyTable) = 4" by (simp add: partyTable_def)
  from top_emojis_ranking [OF k, of "[]"] have
    "length (rankEmojis partyTable) = min 4 (length partyTable)"
    "sorted_wrt (\<lambda>x y. count y \<le> count x) (rankEmojis partyTable)"
    "prefix (filter (\<lambda>x. count x = 3) (rankEmojis partyTable))
            (filter (\<lambda>x. count x = 3) (map emojiEntry partyTable))"
    by blast+
  then have "length (rankEmojis partyTable) = 4"
    "sorted_wrt (\<lambda>x y. count y \<le> count x) (rankEmojis partyTable)"
    "prefix (filter (\<lambda>x. count x = 3) (rankEmojis partyTable))
            [\<lparr>emoji = [55356, 57225], count = 3\<rparr>, \<lparr>emoji = [55357, 56613], count = 3\<rparr>]"
    by (simp_all only: f l)
  moreover have "list_all emojiKey (map fst partyTable)"
    using k by (simp only: list_all_iff)
  ultimately show ?thesis by blast
qed

subsection \<open>C4: keyword matching\<close>

text \<open>
  Claim C4: keyword matching is case-insensitive, substring-based and counts
  non-overlapping matches from left to right; and the scenario with the one message
  of 2024-01-05 gives the bucket \<open>"2024-01"\<close> with \<open>messageCount\<close> 1, 2 for the first
  keyword and 1 for the emoji. In this order, for a case folding \<open>c\<close>: the count only
  depends on the folded text and the folded keyword; a keyword anywhere inside the text,
  in any case, is counted; the leftmost match is counted once and the scan resumes
  after it; the count is 0 exactly when the keyword matches at no position; the matches
  are disjoint; the count of each of the four keywords is added to its entry of the
  bucket. The scenario holds for every environment that reads the date as January 2024,
  folds the code units of the text and of the keywords as Unicode does (\<open>upperUnit\<close>)
  and finds the one emoji in the text.
\<close>

theorem keyword_matching:
  "(map c t = map c t' \<and> map c p = map c p' \<longrightarrow> countMatches c p t = countMatches c p' t')
   \<and> (p \<noteq> [] \<and> map c m = map c p \<longrightarrow> 0 < countMatches c p (pre @ m @ post))
   \<and> (p \<noteq> [] \<and> map c m = map c p
        \<and> (\<forall>i < length pre. \<not> matchesAt c p (drop i (pre @ m @ post)))
       \<longrightarrow> countMatches c p (pre @ m @ post) = Suc (countMatches c p post))
   \<and> (p \<noteq> [] \<longrightarrow> (countMatches c p t = 0) = (\<forall>i < length t. \<not> matchesAt c p (drop i t)))
   \<and> (p \<noteq> [] \<longrightarrow> countMatches c p t * length p \<le> length t)
   \<and> (kw \<in> set fixedKeywords \<and> truthy (get message (ascii ''text''))
       \<longrightarrow> obj_get (keywordCounts (accumulate E message b)) (toLowerCase kw)
           = map_option (\<lambda>v. v + countMatches (canonicalize E) kw (textOf E message))
               (obj_get (keywordCounts b) (toLowerCase kw)))
   \<and> (dateLocal E (JStr (ascii ''2024-01-05T10:00:00'')) = Some (2024, 0)
        \<and> (\<forall>u \<in> set (scenarioText @ concat fixedKeywords). canonicalize E u = upperUnit u)
        \<and> emojiMatches E scenarioText = [[55357, 56832]]
       \<longrightarrow> (\<exists>a b. analyzeChat E scenarioExport = Inr a
              \<and> monthlyStats a = [(ascii ''2024-01'', b)]
              \<and> messageCount b = 1
              \<and> obj_get (keywordCounts b) dobranichLower = Some 2
              \<and> obj_get (emojis b) [55357, 56832] = Some 1))"
proof -
  have scen: "\<exists>a b. analyzeChat E scenarioExport = Inr a
              \<and> monthlyStats a = [(ascii ''2024-01'', b)]
              \<and> messageCount b = 1
              \<and> obj_get (keywordCounts b) dobranichLower = Some 2
              \<and> obj_get (emojis b) [55357, 56832] = Some 1"
    if d: "dateLocal E (JStr (ascii ''2024-01-05T10:00:00'')) = Some (2024, 0)"
      and u: "\<forall>u \<in> set (scenarioText @ concat fixedKeywords). canonicalize E u = upperUnit u"
      and e: "emojiMatches E scenarioText = [[55357, 56832]]"
    unfolding scenario_analysis [OF d u e]
    by (simp add: obj_get_def dobranichLower_def)
  show ?thesis
    using countMatches_caseless [of c t t' p p'] countMatches_substring [of p c m pre post]
      countMatches_leftmost [of p c m pre post] countMatches_zero [of p c t]
      countMatches_bound [of p c t] keyword_count_accumulate [of kw message E b] scen
    by blast
qed

text \<open>
  The first keyword in upper case and in lower case, and inside a longer word; the
  scenario in the example environment.
\<close>

theorem keyword_matching_witness:
  "map upperUnit dobranichUpper = map upperUnit dobranichLower
   \<and> countMatches upperUnit dobranich dobranichUpper = countMatches upperUnit dobranich dobranichLower
   \<and> dobranich \<noteq> [] \<and> map upperUnit dobranichLower = map upperUnit dobranich
   \<and> 0 < countMatches upperUnit dobranich ([1085, 1072] @ dobranichLower @ [1082, 1072])
   \<and> \<not> matchesAt upperUnit dobranich (drop 0 ([1085, 1072] @ dobranichLower @ [1082, 1072]))
   \<and> \<not> matchesAt upperUnit dobranich (drop 1 ([1085, 1072] @ dobranichLower @ [1082, 1072]))
   \<and> countMatches upperUnit dobranich ([1085, 1072] @ dobranichLower @ [1082, 1072])
       = Suc (countMatches upperUnit dobranich [1082, 1072])
   \<and> countMatches upperUnit dobranich dobranichUpper * length dobranich \<le> length dobranichUpper
   \<and> dobranich \<in> set fixedKeywords \<and> truthy (get scenarioMessage (ascii ''text''))
   \<and> obj_get (keywordCounts (accumulate exampleEnv scenarioMessage (newBucket (ascii ''2024-01''))))
        (toLowerCase dobranich)
       = map_option (\<lambda>v. v + countMatches (canonicalize exampleEnv) dobranich
                                (textOf exampleEnv scenarioMessage))
           (obj_get (keywordCounts (newBucket (ascii ''2024-01''))) (toLowerCase dobranich))
   \<and> dateLocal exampleEnv (JStr (ascii ''2024-01-05T10:00:00'')) = Some (2024, 0)
   \<and> list_all (\<lambda>u. canonicalize exampleEnv u = upperUnit u) (scenarioText @ concat fixedKeywords)
   \<and> emojiMatches exampleEnv scenarioText = [[55357, 56832]]
   \<and> (\<exists>a b. analyzeChat exampleEnv scenarioExport = Inr a
          \<and> monthlyStats a = [(ascii ''2024-01'', b)]
          \<and> messageCount b = 1
          \<and> obj_get (keywordCounts b) dobranichLower = Some 2
          \<and> obj_get (emojis b) [55357, 56832] = Some 1)"
proof -
  let ?pre = "[1085, 1072 :: nat]" and ?post = "[1082, 1072 :: nat]"
  have h1: "map upperUnit dobranichUpper = map upperUnit dobranichLower"
    by (simp add: dobranichUpper_def dobranichLower_def upperUnit_def)
  have h2: "dobranich \<noteq> []" by (simp add: dobranich_def)
  have h3: "map upperUnit dobranichLower = map upperUnit dobranich"
    by (simp add: dobranich_def dobranichLower_def upperUnit_def)
  have h4: "\<forall>i < length ?pre.
         \<not> matchesAt upperUnit dobranich (drop i (?pre @ dobranichLower @ ?post))"
  proof (intro allI impI)
    fix i assume "i < length ?pre"
    then have "i = 0 \<or> i = 1" by auto
    then show "\<not> matchesAt upperUnit dobranich (drop i (?pre @ dobranichLower @ ?post))"
      by (auto simp: matchesAt_def dobranich_def dobranichLower_def upperUnit_def)
  qed
  have h5: "dobranich \<in> set fixedKeywords" by (simp add: fixedKeywords_def dobranich_def)
  have h6: "truthy (get scenarioMessage (ascii ''text''))"
    by (simp add: scenarioMessage_def ascii_eq_iff scenarioText_def)
  note inst = keyword_matching [of upperUnit dobranichUpper dobranichLower dobranich dobranich
      dobranichLower ?pre ?post dobranich scenarioMessage exampleEnv
      "newBucket (ascii ''2024-01'')"]
  from inst h1 have c1: "countMatches upperUnit dobranich dobranichUpper
                        = countMatches upperUnit dobranich dobranichLower"
    by blast
  from inst h2 h3 have c2: "0 < countMatches upperUnit dobranich (?pre @ dobranichLower @ ?post)"
    by blast
  from inst h2 h3 h4 have c3: "countMatches upperUnit dobranich (?pre @ dobranichLower @ ?post)
       = Suc (countMatches upperUnit dobranich ?post)"
    by blast
  from inst h2 have c5: "countMatches upperUnit dobranich dobranichUpper * length dobranich
                        \<le> length dobranichUpper"
    by blast
  from inst h5 h6 have c6:
    "obj_get (keywordCounts (accumulate exampleEnv scenarioMessage (newBucket (ascii ''2024-01''))))
        (toLowerCase dobranich)
       = map_option (\<lambda>v. v + countMatches (canonicalize exampleEnv) dobranich
                                (textOf exampleEnv scenarioMessage))
           (obj_get (keywordCounts (newBucket (ascii ''2024-01''))) (toLowerCase dobranich))"
    by blast
  from inst exampleEnv_date exampleEnv_canon exampleEnv_emoji
  have c7: "\<exists>a b. analyzeChat exampleEnv scenarioExport = Inr a
          \<and> monthlyStats a = [(ascii ''2024-01'', b)]
          \<and> messageCount b = 1
          \<and> obj_get (keywordCounts b) dobranichLower = Some 2
          \<and> obj_get (emojis b) [55357, 56832] = Some 1"
    by blast
  have h4a: "\<not> matchesAt upperUnit dobranich (drop 0 (?pre @ dobranichLower @ ?post))"
    and h4b: "\<not> matchesAt upperUnit dobranich (drop 1 (?pre @ dobranichLower @ ?post))"
    using h4 [rule_format, of 0] h4 [rule_format, of 1] by simp_all
  have h7: "list_all (\<lambda>u. canonicalize exampleEnv u = upperUnit u)
              (scenarioText @ concat fixedKeywords)"
    using exampleEnv_canon by (simp only: list_all_iff)
  from h1 h2 h3 h4a h4b h5 h6 h7 c1 c2 c3 c5 c6 c7 exampleEnv_date exampleEnv_emoji
  show ?thesis by blast
qed

subsection \<open>C5: the formatted keywords\<close>

text \<open>
  Claim C5: in every bucket of the output, \<open>keywordsFormatted\<close> has exactly one entry
  for each of the fixed keywords, named by the lowercased keyword, in the order of the
  fixed list, also when the count is 0; the values are the counts of the bucket.
\<close>

theorem keywordsFormatted_per_keyword:
  assumes "analyzeChat E chatData = Inr a" and "(k, b) \<in> set (monthlyStats a)"
  shows "map name (keywordsFormatted b) = map toLowerCase fixedKeywords
    \<and> map nvalue (keywordsFormatted b) = map snd (keywordCounts b)
    \<and> length (keywordsFormatted b) = length fixedKeywords
    \<and> distinct (map name (keywordsFormatted b))"
proof -
  from assms(1) obtain messages
    where a: "monthlyStats a = map (\<lambda>(k, b). (k, finalize b)) (foldl (stepMessage E) [] messages)"
    unfolding analyzeChat_Inr by auto
  define s where "s = foldl (stepMessage E) [] messages"
  from assms(2) obtain b0 where b0: "(k, b0) \<in> set s" and b: "b = finalize b0"
    unfolding a s_def [symmetric] by auto
  have "distinct (map fst s)" unfolding s_def by (simp add: distinct_foldl_step)
  with b0 have look: "map_of s k = Some b0" by (simp only: map_of_in_set)
  define mk where
    "mk = filter (\<lambda>m. isMessage m \<and> monthKeyOf (dateLocal E (get m (ascii ''date''))) = k) messages"
  have "map_of s k = (if mk = [] then None
                      else Some (foldl (\<lambda>b m. accumulate E m b) (newBucket k) mk))"
    unfolding s_def mk_def by (simp add: map_of_foldl_step)
  with look have "b0 = foldl (\<lambda>b m. accumulate E m b) (newBucket k) mk"
    by (cases "mk = []") simp_all
  then have keys: "map fst (keywordCounts b0) = map toLowerCase fixedKeywords"
    by (simp only: keys_foldl_accumulate keys_newBucket)
  have "\<forall>k \<in> set (map fst (keywordCounts b0)). arrayIndex k = None"
    unfolding keys by (rule lowered_not_index)
  then have ent: "Object_entries (keywordCounts b0) = keywordCounts b0"
    by (rule Object_entries_id)
  have kf: "keywordsFormatted b = map (\<lambda>(keyword, c). \<lparr>name = keyword, nvalue = c\<rparr>) (keywordCounts b0)"
    unfolding b by (simp add: finalize_def Let_def ent)
  have "map name (keywordsFormatted b) = map fst (keywordCounts b0)"
    unfolding kf by (induction "keywordCounts b0") auto
  then have n: "map name (keywordsFormatted b) = map toLowerCase fixedKeywords"
    by (simp only: keys)
  have "map nvalue (keywordsFormatted b) = map snd (keywordCounts b0)"
    unfolding kf by (induction "keywordCounts b0") auto
  then have v: "map nvalue (keywordsFormatted b) = map snd (keywordCounts b)"
    by (simp only: b finalize_fields)
  have "length (map name (keywordsFormatted b)) = length (map toLowerCase fixedKeywords)"
    by (simp only: n)
  then have l: "length (keywordsFormatted b) = length fixedKeywords"
    by (simp only: length_map)
  have d: "distinct (map name (keywordsFormatted b))"
    unfolding n by (rule distinct_lowered)
  from n v l d show ?thesis by blast
qed

text \<open>
  The bucket \<open>"NaN-NaN"\<close> of the mixed export: four entries, all of them 0.
\<close>

theorem keywordsFormatted_per_keyword_witness:
  "analyzeChat exampleEnv mixedExport = Inr mixedAnalysis
   \<and> (ascii ''NaN-NaN'', undatedBucket) \<in> set (monthlyStats mixedAnalysis)
   \<and> map name (keywordsFormatted undatedBucket)
       = [[1076, 1086, 1073, 1088, 1072, 1085, 1110, 1095],
          [1089, 1086, 1083, 1086, 1076, 1082, 1080, 1093],
          [1076, 1086, 1073, 1088, 1086, 1075, 1086, 32, 1088, 1072, 1085, 1082, 1091],
          [1089, 1082, 1091, 1095, 1080, 1074]]
   \<and> map nvalue (keywordsFormatted undatedBucket) = [0, 0, 0, 0]"
proof -
  have m: "(ascii ''NaN-NaN'', undatedBucket) \<in> set (monthlyStats mixedAnalysis)"
    by (simp add: mixedAnalysis_def)
  have l: "map toLowerCase fixedKeywords
       = [[1076, 1086, 1073, 1088, 1072, 1085, 1110, 1095],
          [1089, 1086, 1083, 1086, 1076, 1082, 1080, 1093],
          [1076, 1086, 1073, 1088, 1086, 1075, 1086, 32, 1088, 1072, 1085, 1082, 1091],
          [1089, 1082, 1091, 1095, 1080, 1074]]"
    by (simp add: fixedKeywords_def toLowerCase_def toLowerCase_unit_def)
  have z: "map snd (keywordCounts undatedBucket) = [0, 0, 0, 0]"
    by (simp add: undatedBucket_def)
  from keywordsFormatted_per_keyword [OF mixed_run m] l z
  have "map name (keywordsFormatted undatedBucket)
       = [[1076, 1086, 1073, 1088, 1072, 1085, 1110, 1095],
          [1089, 1086, 1083, 1086, 1076, 1082, 1080, 1093],
          [1076, 1086, 1073, 1088, 1086, 1075, 1086, 32, 1088, 1072, 1085, 1082, 1091],
          [1089, 1082, 1091, 1095, 1080, 1074]]
      \<and> map nvalue (keywordsFormatted undatedBucket) = [0, 0, 0, 0]"
    by (simp only:) 
  with mixed_run m show ?thesis by blast
qed

subsection \<open>C6: counting photos\<close>

text \<open>
  Claim C6: processing a message of type \<open>"message"\<close> increments \<open>photoCount\<close> of its
  bucket exactly when \<open>photo\<close> is truthy, \<open>media_type\<close> is \<open>"photo"\<close> or \<open>photo_id\<close> is
  truthy; a message with \<open>photo: true\<close> and no text increments \<open>photoCount\<close> and leaves
  the keyword and emoji counts as they are. A message is processed when line 56 does
  not throw on its date; on a date on which it throws the callback ends with a
  \<open>TypeError\<close> before any count changes (lemma \<open>processMessage_step\<close>). \<open>before\<close> is
  the bucket of the message before the step, the new bucket if there is none yet; no
  other bucket changes.
\<close>

theorem photo_counting:
  assumes "message \<noteq> JNull" and "message \<noteq> JUndefined" and "isMessage message"
    and "\<not> toPrimitiveThrows (get message (ascii ''date''))"
  shows "\<exists>stats' after.
      processMessage E stats message = Inr stats'
    \<and> obj_get stats' (monthKeyOf (dateLocal E (get message (ascii ''date'')))) = Some after
    \<and> (\<forall>k. k \<noteq> monthKeyOf (dateLocal E (get message (ascii ''date''))) \<longrightarrow> obj_get stats' k = obj_get stats k)
    \<and> (let before = (case obj_get stats (monthKeyOf (dateLocal E (get message (ascii ''date'')))) of
                       None \<Rightarrow> newBucket (monthKeyOf (dateLocal E (get message (ascii ''date''))))
                     | Some b \<Rightarrow> b)
       in photoCount after
            = photoCount before
              + (if truthy (get message (ascii ''photo''))
                    \<or> get message (ascii ''media_type'') = JStr (ascii ''photo'')
                    \<or> truthy (get message (ascii ''photo_id''))
                 then 1 else 0)
        \<and> (get message (ascii ''photo'') = JBool True \<and> \<not> truthy (get message (ascii ''text''))
             \<longrightarrow> photoCount after = photoCount before + 1
               \<and> keywordCounts after = keywordCounts before
               \<and> emojis after = emojis before))"
proof -
  let ?k = "monthKeyOf (dateLocal E (get message (ascii ''date'')))"
  let ?before = "case map_of stats ?k of None \<Rightarrow> newBucket ?k | Some b \<Rightarrow> b"
  have p: "isPhoto message = (truthy (get message (ascii ''photo''))
                    \<or> get message (ascii ''media_type'') = JStr (ascii ''photo'')
                    \<or> truthy (get message (ascii ''photo_id'')))"
    by (auto simp: isPhoto_def ascii_def)
  have r: "processMessage E stats message = Inr (stepMessage E stats message)"
    using assms by (simp add: processMessage_step dateThrows_def)
  have l: "map_of (stepMessage E stats message) ?k = Some (accumulate E message ?before)"
    using assms(3) by (simp add: map_of_step)
  have o: "\<forall>k. k \<noteq> ?k \<longrightarrow> map_of (stepMessage E stats message) k = map_of stats k"
    by (simp add: map_of_step)
  have nt: "\<not> truthy (get message (ascii ''text'')) \<Longrightarrow>
            keywordCounts (accumulate E message ?before) = keywordCounts ?before
            \<and> emojis (accumulate E message ?before) = emojis ?before"
    by (simp add: accumulate_def processText_eq)
  have pt: "get message (ascii ''photo'') = JBool True \<Longrightarrow> isPhoto message"
    by (simp add: p)
  have pc: "photoCount (accumulate E message ?before)
            = photoCount ?before
              + (if truthy (get message (ascii ''photo''))
                    \<or> get message (ascii ''media_type'') = JStr (ascii ''photo'')
                    \<or> truthy (get message (ascii ''photo_id''))
                 then 1 else 0)"
    by (simp only: accumulate_photoCount p)
  have both: "get message (ascii ''photo'') = JBool True \<and> \<not> truthy (get message (ascii ''text''))
             \<longrightarrow> photoCount (accumulate E message ?before) = photoCount ?before + 1
               \<and> keywordCounts (accumulate E message ?before) = keywordCounts ?before
               \<and> emojis (accumulate E message ?before) = emojis ?before"
    using nt pt by (simp add: accumulate_photoCount)
  show ?thesis
    unfolding obj_get_def Let_def
    using r l o pc both by blast
qed

text \<open>
  The undated message with \<open>photo: true\<close> and no text, on the empty state.
\<close>

theorem photo_counting_witness:
  "undatedPhoto \<noteq> JNull \<and> undatedPhoto \<noteq> JUndefined \<and> isMessage undatedPhoto
   \<and> \<not> toPrimitiveThrows (get undatedPhoto (ascii ''date''))
   \<and> get undatedPhoto (ascii ''photo'') = JBool True
   \<and> \<not> truthy (get undatedPhoto (ascii ''text''))
   \<and> (\<exists>stats' after. processMessage exampleEnv [] undatedPhoto = Inr stats'
         \<and> obj_get stats' (ascii ''NaN-NaN'') = Some after
         \<and> photoCount after = 1
         \<and> keywordCounts after = keywordCounts (newBucket (ascii ''NaN-NaN''))
         \<and> emojis after = [])"
proof -
  have n: "undatedPhoto \<noteq> JNull" "undatedPhoto \<noteq> JUndefined"
    by (simp_all add: undatedPhoto_def)
  have ph: "get undatedPhoto (ascii ''photo'') = JBool True"
    and tx: "\<not> truthy (get undatedPhoto (ascii ''text''))"
    by (simp_all add: undatedPhoto_def ascii_eq_iff)
  have d: "\<not> toPrimitiveThrows (get undatedPhoto (ascii ''date''))"
    by (simp add: undatedPhoto_def ascii_eq_iff)
  from photo_counting [OF n example_isMessage(2) d, of exampleEnv "[]"]
  obtain stats' after where s: "processMessage exampleEnv [] undatedPhoto = Inr stats'"
    and a: "obj_get stats' (ascii ''NaN-NaN'') = Some after"
    and c: "photoCount after = photoCount (newBucket (ascii ''NaN-NaN'')) + 1
             \<and> keywordCounts after = keywordCounts (newBucket (ascii ''NaN-NaN''))
             \<and> emojis after = emojis (newBucket (ascii ''NaN-NaN''))"
    unfolding undated_key Let_def by (simp add: obj_get_def ph tx) blast
  from c have "photoCount after = 1" "emojis after = []"
    by (simp_all add: newBucket_def)
  with n example_isMessage(2) d ph tx s a c show ?thesis by blast
qed

subsection \<open>C7: the failures of the queries\<close>

text \<open>
  Claim C7 says that the year query fails with InvalidFormat (status 400) on an input
  that does not match \<open>^\d{4}$\<close>, the month query on an input that does not match
  \<open>^\d{4}-\d{2}$\<close>, and that both fail with NotFound (status 404), never with an empty
  success, when no analysis is stored or no bucket matches the key. The last part fails
  for the year query, which returns the filtered list as it is. What holds: the two
  format failures; on a well-formed input, NotFound from both queries when no analysis
  is stored, and from the month query when no bucket has the month; and the year query
  on a stored analysis always succeeds, with the empty list when no month starts with
  the year and a hyphen.
\<close>

theorem query_failures:
  "yearFormat year = (length year = 4 \<and> list_all isDigit year)
   \<and> monthFormat monthKey
       = (\<exists>y m. monthKey = y @ 45 # m \<and> length y = 4 \<and> length m = 2
                \<and> list_all isDigit y \<and> list_all isDigit m)
   \<and> (\<not> yearFormat year
       \<longrightarrow> statisticsYear localeCompare found year = Failure 400 (ascii ''Invalid year format''))
   \<and> (\<not> monthFormat monthKey
       \<longrightarrow> statisticsMonth found monthKey
           = Failure 400 (ascii ''Invalid month format. Use YYYY-MM''))
   \<and> (yearFormat year
       \<longrightarrow> statisticsYear localeCompare (Resolved None) year
           = Failure 404 (ascii ''No chat analysis data found''))
   \<and> (monthFormat monthKey
       \<longrightarrow> statisticsMonth (Resolved None) monthKey
           = Failure 404 (ascii ''No chat analysis data found''))
   \<and> (monthFormat monthKey \<and> (\<forall>stat \<in> set (monthlyStats doc). month stat \<noteq> monthKey)
       \<longrightarrow> statisticsMonth (Resolved (Some doc)) monthKey
           = Failure 404 (ascii ''No data found for the specified month''))
   \<and> (yearFormat year
        \<and> (\<forall>stat \<in> set (monthlyStats doc). \<not> startsWith (month stat) (year @ ascii ''-''))
       \<longrightarrow> statisticsYear localeCompare (Resolved (Some doc)) year = Ok200 [])
   \<and> (yearFormat year
       \<longrightarrow> (\<exists>monthlyData. statisticsYear localeCompare (Resolved (Some doc)) year = Ok200 monthlyData))"
proof -
  have m: "statisticsMonth (Resolved (Some doc)) monthKey
           = Failure 404 (ascii ''No data found for the specified month'')"
    if "monthFormat monthKey" "\<forall>stat \<in> set (monthlyStats doc). month stat \<noteq> monthKey"
    using that by (simp add: statisticsMonth_def find_None)
  have y: "statisticsYear localeCompare (Resolved (Some doc)) year = Ok200 []"
    if "yearFormat year"
      "\<forall>stat \<in> set (monthlyStats doc). \<not> startsWith (month stat) (year @ ascii ''-'')"
  proof -
    from that(2) have "filter (\<lambda>stat. startsWith (month stat) (year @ ascii ''-'')) (monthlyStats doc) = []"
      by (simp add: filter_empty_conv)
    with that(1) show ?thesis by (simp add: statisticsYear_def Array_sort_def)
  qed
  have y2: "\<exists>monthlyData. statisticsYear localeCompare (Resolved (Some doc)) year = Ok200 monthlyData"
    if "yearFormat year"
    using that by (simp add: statisticsYear_def)
  show ?thesis
    using yearFormat_iff [of year] monthFormat_iff [of monthKey] m y y2
    by (simp add: statisticsYear_def statisticsMonth_def)
qed

text \<open>
  Two malformed inputs, and two well-formed ones on no document and on the document
  stored for the mixed export, which has no bucket of 2023 and none of February 2024.
\<close>

theorem query_failures_witness:
  "\<not> yearFormat (ascii ''20x4'')
   \<and> statisticsYear unitCompare (Resolved (Some storedExample)) (ascii ''20x4'')
       = Failure 400 (ascii ''Invalid year format'')
   \<and> \<not> monthFormat (ascii ''2024-1'')
   \<and> statisticsMonth (Resolved (Some storedExample)) (ascii ''2024-1'')
       = Failure 400 (ascii ''Invalid month format. Use YYYY-MM'')
   \<and> yearFormat (ascii ''2023'')
   \<and> statisticsYear unitCompare (Resolved None) (ascii ''2023'')
       = Failure 404 (ascii ''No chat analysis data found'')
   \<and> monthFormat (ascii ''2024-02'')
   \<and> statisticsMonth (Resolved None) (ascii ''2024-02'')
       = Failure 404 (ascii ''No chat analysis data found'')
   \<and> list_all (\<lambda>stat. month stat \<noteq> ascii ''2024-02'') (monthlyStats storedExample)
   \<and> statisticsMonth (Resolved (Some storedExample)) (ascii ''2024-02'')
       = Failure 404 (ascii ''No data found for the specified month'')
   \<and> list_all (\<lambda>stat. \<not> startsWith (month stat) (ascii ''2023'' @ ascii ''-''))
        (monthlyStats storedExample)
   \<and> statisticsYear unitCompare (Resolved (Some storedExample)) (ascii ''2023'') = Ok200 []"
proof -
  note bad = query_failures [of "ascii ''20x4''" "ascii ''2024-1''" unitCompare
      "Resolved (Some storedExample)" storedExample]
  note good = query_failures [of "ascii ''2023''" "ascii ''2024-02''" unitCompare
      "Resolved None" storedExample]
  from bad example_formats(1)
  have b1: "statisticsYear unitCompare (Resolved (Some storedExample)) (ascii ''20x4'')
       = Failure 400 (ascii ''Invalid year format'')"
    by blast
  from bad example_formats(2)
  have b2: "statisticsMonth (Resolved (Some storedExample)) (ascii ''2024-1'')
       = Failure 400 (ascii ''Invalid month format. Use YYYY-MM'')"
    by blast
  from good example_formats(3)
  have g1: "statisticsYear unitCompare (Resolved None) (ascii ''2023'')
       = Failure 404 (ascii ''No chat analysis data found'')"
    by blast
  from good example_formats(4)
  have g2: "statisticsMonth (Resolved None) (ascii ''2024-02'')
       = Failure 404 (ascii ''No chat analysis data found'')"
    by blast
  have f: "\<forall>stat \<in> set (monthlyStats storedExample). month stat \<noteq> ascii ''2024-02''"
    using storedExample_no_february by (simp only: list_all_iff)
  have p: "\<forall>stat \<in> set (monthlyStats storedExample).
             \<not> startsWith (month stat) (ascii ''2023'' @ ascii ''-'')"
    using storedExample_no_2023 by (simp only: list_all_iff)
  from good example_formats(4) f
  have g3: "statisticsMonth (Resolved (Some storedExample)) (ascii ''2024-02'')
       = Failure 404 (ascii ''No data found for the specified month'')"
    by blast
  from good example_formats(3) p
  have g4: "statisticsYear unitCompare (Resolved (Some storedExample)) (ascii ''2023'') = Ok200 []"
    by blast
  from example_formats b1 b2 g1 g2 g3 g4 storedExample_no_february storedExample_no_2023
  show ?thesis by blast
qed

text \<open>
  C7 as stated fails for the year 2023 on that document: no month starts with
  \<open>"2023-"\<close>, and the answer is status 200 with the empty list.
\<close>

theorem year_query_counterexample:
  "yearFormat (ascii ''2023'')
   \<and> map month (monthlyStats storedExample) = [ascii ''2024-01'', ascii ''NaN-NaN'']
   \<and> \<not> startsWith (ascii ''2024-01'') (ascii ''2023'' @ ascii ''-'')
   \<and> \<not> startsWith (ascii ''NaN-NaN'') (ascii ''2023'' @ ascii ''-'')
   \<and> statisticsYear unitCompare (Resolved (Some storedExample)) (ascii ''2023'') = Ok200 []"
proof -
  have "filter (\<lambda>stat. startsWith (month stat) (ascii ''2023'' @ ascii ''-''))
          (monthlyStats storedExample) = []"
    using storedExample_no_2023 by (simp add: filter_empty_conv list_all_iff)
  then have "statisticsYear unitCompare (Resolved (Some storedExample)) (ascii ''2023'') = Ok200 []"
    by (simp add: statisticsYear_def example_formats Array_sort_def)
  moreover have "\<not> startsWith (ascii ''2024-01'') (ascii ''2023'' @ ascii ''-'')"
    "\<not> startsWith (ascii ''NaN-NaN'') (ascii ''2023'' @ ascii ''-'')"
    by (simp_all add: startsWith_def ascii_def)
  ultimately show ?thesis using example_formats(3) storedExample_months by blast
qed

subsection \<open>C8: determinism\<close>



subsection \<open>C9: the bucket of the unparseable dates\<close>

text \<open>
  Claim C9: a message of type \<open>"message"\<close> whose date does not parse is accumulated in
  the bucket of key \<open>"NaN-NaN"\<close>, which is in \<open>monthlyStats\<close> like any other bucket: it
  is listed by \<open>Object.keys\<close> and \<open>Object.values\<close>, its \<open>month\<close> is its key, and it
  counts every such message and the photos among them.
\<close>

theorem unparseable_date_bucket:
  assumes "analyzeChat E chatData = Inr a"
    and "get chatData (ascii ''messages'') = JArr messages"
    and "m \<in> set messages" and "isMessage m"
    and "dateLocal E (get m (ascii ''date'')) = None"
  shows "\<exists>b. (ascii ''NaN-NaN'', b) \<in> set (monthlyStats a)
           \<and> ascii ''NaN-NaN'' \<in> set (Object_keys (monthlyStats a))
           \<and> b \<in> set (Object_values (monthlyStats a))
           \<and> month b = ascii ''NaN-NaN''
           \<and> messageCount b = length (filter (unparseable E) messages)
           \<and> photoCount b = length (filter isPhoto (filter (unparseable E) messages))
           \<and> 0 < messageCount b"
proof -
  let ?s = "foldl (stepMessage E) [] messages"
  let ?nan = "ascii ''NaN-NaN''"
  let ?bad = "filter (unparseable E) messages"
  from assms have a: "monthlyStats a = map (\<lambda>(k, b). (k, finalize b)) ?s"
    by (auto simp: analyzeChat_Inr)
  have f: "filter (\<lambda>m. isMessage m \<and> monthKeyOf (dateLocal E (get m (ascii ''date''))) = ?nan) messages = ?bad"
    by (simp add: unparseable_def [abs_def] monthKeyOf_NaN)
  have "m \<in> set ?bad" using assms by (simp add: unparseable_def)
  then have ne: "?bad \<noteq> []" by (metis empty_iff list.set(1))
  define b where "b = finalize (foldl (\<lambda>b m. accumulate E m b) (newBucket ?nan) ?bad)"
  have look: "map_of (monthlyStats a) ?nan = Some b"
    using ne by (simp add: a map_of_finalized map_of_foldl_step f b_def del: set_filter)
  then have mem: "(?nan, b) \<in> set (monthlyStats a)" by (rule map_of_SomeD)
  have ent: "Object_entries (monthlyStats a) = monthlyStats a"
    unfolding a using keys_pass1_not_index [of E messages]
    by (intro Object_entries_id) (auto simp: o_def split_def)
  have k: "?nan \<in> set (Object_keys (monthlyStats a))"
    using mem by (force simp: Object_keys_def ent)
  have v: "b \<in> set (Object_values (monthlyStats a))"
    using mem by (force simp: Object_values_def ent)
  have mo: "month b = ?nan"
    by (simp add: b_def finalize_fields month_foldl_accumulate newBucket_def)
  have mc: "messageCount b = length ?bad"
    by (simp add: b_def finalize_fields messageCount_foldl_accumulate newBucket_def)
  have pc: "photoCount b = length (filter isPhoto ?bad)"
    by (simp add: b_def finalize_fields photoCount_foldl_accumulate newBucket_def)
  from ne have "0 < length ?bad" by simp
  with mem k v mo mc pc show ?thesis by (intro exI [of _ b]) simp
qed

text \<open>
  The mixed export: its undated message is the one message of the bucket
  \<open>"NaN-NaN"\<close>.
\<close>

theorem unparseable_date_bucket_witness:
  "analyzeChat exampleEnv mixedExport = Inr mixedAnalysis
   \<and> get mixedExport (ascii ''messages'') = JArr [scenarioMessage, undatedPhoto, serviceEntry]
   \<and> isMessage undatedPhoto
   \<and> dateLocal exampleEnv (get undatedPhoto (ascii ''date'')) = None
   \<and> (\<exists>b. (ascii ''NaN-NaN'', b) \<in> set (monthlyStats mixedAnalysis)
          \<and> month b = ascii ''NaN-NaN'' \<and> messageCount b = 1 \<and> photoCount b = 1)"
proof -
  have d: "dateLocal exampleEnv (get undatedPhoto (ascii ''date'')) = None"
    by (simp add: undatedPhoto_def ascii_eq_iff exampleEnv_undated)
  have p: "isPhoto undatedPhoto"
    by (simp add: isPhoto_def undatedPhoto_def ascii_eq_iff)
  from unparseable_date_bucket [OF mixed_run mixed_messages _ example_isMessage(2) d]
  show ?thesis
    by (auto simp: mixed_run mixed_messages example_isMessage d example_unparseable p)
qed

subsection \<open>C10: the total of the messages\<close>

text \<open>
  Claim C10: \<open>totalMessages\<close> is the length of the whole array \<open>messages\<close>, whatever
  the type and the date of its entries are; the buckets count at most as many.
\<close>

theorem totalMessages_is_length:
  assumes "analyzeChat E chatData = Inr a"
    and "get chatData (ascii ''messages'') = JArr messages"
  shows "totalMessages a = length messages \<and> bucketTotal a \<le> totalMessages a"
proof -
  from assms have t: "totalMessages a = length messages"
    by (auto simp: analyzeChat_Inr)
  from assms have "bucketTotal a = length (filter isMessage messages)"
    by (rule bucketTotal_eq)
  with t show ?thesis by simp
qed

text \<open>
  The mixed export has three entries, of which the service entry is in no bucket.
\<close>

theorem totalMessages_is_length_witness:
  "analyzeChat exampleEnv mixedExport = Inr mixedAnalysis
   \<and> get mixedExport (ascii ''messages'') = JArr [scenarioMessage, undatedPhoto, serviceEntry]
   \<and> totalMessages mixedAnalysis = 3 \<and> bucketTotal mixedAnalysis \<le> 3
   \<and> \<not> isMessage serviceEntry"
  using totalMessages_is_length [OF mixed_run mixed_messages]
  by (simp add: mixed_run mixed_messages example_isMessage)

end
